theory Spec2Isabelle
  imports Complex_Main
begin

section \<open>The bike-share traffic overlay of \<^verbatim>\<open>map.js\<close>\<close>

text \<open>
  The development embeds the time-bucketed trip store, the window query
  \<^verbatim>\<open>filterByMinute\<close>, the aggregation \<^verbatim>\<open>computeStationTraffic\<close> and the
  visual encodings of \<^verbatim>\<open>map.js\<close>. JavaScript objects that the code shares and
  mutates (the stations) live in an explicit store; arrays are lists; a thrown
  exception is the left summand of a result.
\<close>

subsection \<open>JavaScript primitives used by the code\<close>

datatype js_error = TypeError

text \<open>
  A \<^verbatim>\<open>Date\<close> object is either the invalid date (its time value is NaN) or carries a
  local time value in milliseconds. \<^verbatim>\<open>getHours\<close> and \<^verbatim>\<open>getMinutes\<close> follow
  ECMAScript's HourFromTime and MinFromTime; on the invalid date they give NaN,
  which is \<open>None\<close> here.
\<close>

datatype js_date = InvalidDate | LocalTime int

fun getHours :: "js_date \<Rightarrow> nat option" where
  "getHours InvalidDate = None"
| "getHours (LocalTime t) = Some (nat ((t div 3600000) mod 24))"

fun getMinutes :: "js_date \<Rightarrow> nat option" where
  "getMinutes InvalidDate = None"
| "getMinutes (LocalTime t) = Some (nat ((t div 60000) mod 60))"

text \<open>The remainder operator \<^verbatim>\<open>%\<close>: the result takes the sign of the dividend.\<close>

definition js_rem :: "int \<Rightarrow> int \<Rightarrow> int" where
  "js_rem a b = (if a < 0 then - ((- a) mod \<bar>b\<bar>) else a mod \<bar>b\<bar>)"

text \<open>
  \<^verbatim>\<open>Array.prototype.slice\<close>: a negative index counts from the end, both indices
  are clamped to the array, and an empty range gives the empty array.
\<close>

definition rel_index :: "nat \<Rightarrow> int \<Rightarrow> nat" where
  "rel_index len k = (if k < 0 then nat (max (int len + k) 0) else min (nat k) len)"

definition js_slice :: "'a list \<Rightarrow> int \<Rightarrow> int \<Rightarrow> 'a list" where
  "js_slice xs s e =
     (let from = rel_index (length xs) s; to = rel_index (length xs) e
      in take (to - from) (drop from xs))"

definition js_slice_from :: "'a list \<Rightarrow> int \<Rightarrow> 'a list" where
  "js_slice_from xs s = drop (rel_index (length xs) s) xs"

subsection \<open>Trips and the minute buckets\<close>

text \<open>
  A CSV row carries its two timestamps as strings; the row conversion replaces
  them by \<^verbatim>\<open>Date\<close> objects. The record is parametric in the timestamp type.
\<close>

record 'd trip_row =
  start_station_id :: string
  end_station_id :: string
  started_at :: 'd
  ended_at :: 'd

type_synonym raw_trip = "string trip_row"
type_synonym trip = "js_date trip_row"

record trip_store =
  departuresByMinute :: "trip list list"
  arrivalsByMinute :: "trip list list"

definition init_store :: trip_store where
  "init_store = \<lparr>departuresByMinute = replicate 1440 [], arrivalsByMinute = replicate 1440 []\<rparr>"

definition minutesSinceMidnight :: "js_date \<Rightarrow> nat option" where
  "minutesSinceMidnight date =
     (case getHours date of
        None \<Rightarrow> None
      | Some h \<Rightarrow> (case getMinutes date of None \<Rightarrow> None | Some m \<Rightarrow> Some (h * 60 + m)))"

definition filterByMinute :: "'a list list \<Rightarrow> int \<Rightarrow> 'a list" where
  "filterByMinute tripsByMinute minute =
     (if minute = - 1 then concat tripsByMinute
      else
        let minMinute = js_rem (minute - 60 + 1440) 1440;
            maxMinute = js_rem (minute + 60) 1440
        in if minMinute > maxMinute then
             (let beforeMidnight = js_slice_from tripsByMinute minMinute;
                  afterMidnight = js_slice tripsByMinute 0 maxMinute
              in concat (beforeMidnight @ afterMidnight))
           else concat (js_slice tripsByMinute minMinute maxMinute))"

text \<open>
  The row conversion passed to \<^verbatim>\<open>d3.csv\<close>. \<open>newDate\<close> is the \<^verbatim>\<open>Date\<close>
  constructor applied to a string; the two assignments of the conversion are
  \<open>parse_dates\<close>. Indexing a bucket array with NaN (or beyond its
  length) yields \<^verbatim>\<open>undefined\<close>, and calling \<^verbatim>\<open>push\<close> on it throws a TypeError;
  the departure bucket has already been written when the arrival index fails.
\<close>

definition parse_dates :: "(string \<Rightarrow> js_date) \<Rightarrow> raw_trip \<Rightarrow> trip" where
  "parse_dates newDate row =
     \<lparr>start_station_id = start_station_id row,
      end_station_id = end_station_id row,
      started_at = newDate (started_at row),
      ended_at = newDate (ended_at row)\<rparr>"

definition row_conversion ::
  "(string \<Rightarrow> js_date) \<Rightarrow> trip_store \<Rightarrow> raw_trip \<Rightarrow> trip_store \<times> (js_error + trip)" where
  "row_conversion newDate st row =
     (let trip = parse_dates newDate row
      in case minutesSinceMidnight (started_at trip) of
           None \<Rightarrow> (st, Inl TypeError)
         | Some startedMinutes \<Rightarrow>
             if length (departuresByMinute st) \<le> startedMinutes then (st, Inl TypeError)
             else
               let st1 = st\<lparr>departuresByMinute :=
                            list_update (departuresByMinute st) startedMinutes
                              (departuresByMinute st ! startedMinutes @ [trip])\<rparr>
               in (case minutesSinceMidnight (ended_at trip) of
                     None \<Rightarrow> (st1, Inl TypeError)
                   | Some endedMinutes \<Rightarrow>
                       if length (arrivalsByMinute st1) \<le> endedMinutes then (st1, Inl TypeError)
                       else
                         (st1\<lparr>arrivalsByMinute :=
                                list_update (arrivalsByMinute st1) endedMinutes
                                  (arrivalsByMinute st1 ! endedMinutes @ [trip])\<rparr>,
                          Inr trip)))"

text \<open>
  \<^verbatim>\<open>d3.csv\<close> applies the row conversion to the rows in file order and collects
  what it returns; an exception thrown by the conversion rejects the load, and the
  rows after the failing one are never converted.
\<close>

fun d3_csv ::
  "(string \<Rightarrow> js_date) \<Rightarrow> trip_store \<Rightarrow> raw_trip list \<Rightarrow> trip_store \<times> (js_error + trip list)" where
  "d3_csv newDate st [] = (st, Inr [])"
| "d3_csv newDate st (row # rows) =
     (case row_conversion newDate st row of
        (st1, Inl e) \<Rightarrow> (st1, Inl e)
      | (st1, Inr trip) \<Rightarrow>
          (case d3_csv newDate st1 rows of
             (st2, Inl e) \<Rightarrow> (st2, Inl e)
           | (st2, Inr trips) \<Rightarrow> (st2, Inr (trip # trips))))"

subsection \<open>Stations and the aggregation\<close>

text \<open>
  Station objects are shared and written in place, so they live in a store
  addressed by references; the station arrays hold references. The traffic fields
  do not exist on a freshly loaded station (\<open>None\<close> is \<^verbatim>\<open>undefined\<close>). Fields
  of the feed that the code never touches are the record's extension.
\<close>

record station =
  short_name :: string
  lon :: real
  lat :: real
  arrivals :: "nat option"
  departures :: "nat option"
  totalTraffic :: "nat option"

type_synonym ref = nat
type_synonym 'a heap = "ref \<Rightarrow> 'a station_scheme"

text \<open>
  \<^verbatim>\<open>d3.rollup(values, reduce, key)\<close> of the D3 library: the values are grouped by
  key into a map that keeps insertion order, each group keeps the order of the
  values, and every group is replaced by its reduction.
\<close>

fun group_insert :: "'k \<Rightarrow> 'a \<Rightarrow> ('k \<times> 'a list) list \<Rightarrow> ('k \<times> 'a list) list" where
  "group_insert k v [] = [(k, [v])]"
| "group_insert k v ((k', vs) # groups) =
     (if k' = k then (k', vs @ [v]) # groups else (k', vs) # group_insert k v groups)"

definition d3_group :: "('a \<Rightarrow> 'k) \<Rightarrow> 'a list \<Rightarrow> ('k \<times> 'a list) list" where
  "d3_group key values = foldl (\<lambda>groups v. group_insert (key v) v groups) [] values"

definition d3_rollup :: "'a list \<Rightarrow> ('a list \<Rightarrow> 'r) \<Rightarrow> ('a \<Rightarrow> 'k) \<Rightarrow> ('k \<times> 'r) list" where
  "d3_rollup values reduce key = map (\<lambda>(k, vs). (k, reduce vs)) (d3_group key values)"

text \<open>\<^verbatim>\<open>m.get(k) ?? d\<close> on such a map.\<close>

definition get_or :: "('k \<times> 'r) list \<Rightarrow> 'k \<Rightarrow> 'r \<Rightarrow> 'r" where
  "get_or m k d = (case map_of m k of None \<Rightarrow> d | Some v \<Rightarrow> v)"

text \<open>Addition of two number fields; \<^verbatim>\<open>undefined\<close> makes the sum NaN (\<open>None\<close>).\<close>

definition js_add :: "nat option \<Rightarrow> nat option \<Rightarrow> nat option" where
  "js_add a b = (case a of None \<Rightarrow> None | Some x \<Rightarrow> (case b of None \<Rightarrow> None | Some y \<Rightarrow> Some (x + y)))"

text \<open>
  The callback of \<^verbatim>\<open>stations.map\<close> in \<^verbatim>\<open>computeStationTraffic\<close>: three field
  writes on the object the reference points to, the third reading back the first
  two, and the reference itself as the result.
\<close>

definition update_station ::
  "(string \<times> nat) list \<Rightarrow> (string \<times> nat) list \<Rightarrow> 'a heap \<Rightarrow> ref \<Rightarrow> 'a heap \<times> ref" where
  "update_station arrivals_map departures_map h station =
     (let id = short_name (h station);
          h1 = h(station := (h station)\<lparr>arrivals := Some (get_or arrivals_map id 0)\<rparr>);
          h2 = h1(station := (h1 station)\<lparr>departures := Some (get_or departures_map id 0)\<rparr>);
          h3 = h2(station := (h2 station)
                 \<lparr>totalTraffic := js_add (arrivals (h2 station)) (departures (h2 station))\<rparr>)
      in (h3, station))"

text \<open>\<^verbatim>\<open>Array.prototype.map\<close> with a callback that has an effect on the store.\<close>

fun array_map :: "('h \<Rightarrow> 'x \<Rightarrow> 'h \<times> 'y) \<Rightarrow> 'h \<Rightarrow> 'x list \<Rightarrow> 'h \<times> 'y list" where
  "array_map cb h [] = (h, [])"
| "array_map cb h (x # xs) =
     (case cb h x of (h1, y) \<Rightarrow> (case array_map cb h1 xs of (h2, ys) \<Rightarrow> (h2, y # ys)))"

definition computeStationTraffic ::
  "trip_store \<Rightarrow> 'a heap \<Rightarrow> ref list \<Rightarrow> int \<Rightarrow> 'a heap \<times> ref list" where
  "computeStationTraffic st h stations timeFilter =
     (let departures_map =
            d3_rollup (filterByMinute (departuresByMinute st) timeFilter) length start_station_id;
          arrivals_map =
            d3_rollup (filterByMinute (arrivalsByMinute st) timeFilter) length end_station_id
      in array_map (update_station arrivals_map departures_map) h stations)"

subsection \<open>Visual encodings\<close>

text \<open>
  \<^verbatim>\<open>d3.max\<close> skips \<^verbatim>\<open>undefined\<close> and NaN and is \<^verbatim>\<open>undefined\<close> when nothing is
  left.
\<close>

definition d3_max :: "nat option list \<Rightarrow> nat option" where
  "d3_max vals =
     foldl (\<lambda>m v. case v of
                     None \<Rightarrow> m
                   | Some x \<Rightarrow> (case m of None \<Rightarrow> Some x | Some y \<Rightarrow> if y < x then Some x else m))
       None vals"

text \<open>
  \<^verbatim>\<open>d3.scaleSqrt\<close> with domain \<open>[0, domain_max]\<close>: a continuous scale that takes
  the square root of the input and of the domain ends, normalises and interpolates
  linearly into the range. A collapsed domain normalises to one half. Numbers are
  real numbers here; rounding of doubles is not modelled. \<open>None\<close> is the scale's
  answer NaN or \<^verbatim>\<open>undefined\<close>.
\<close>

record sqrt_scale =
  domain_max :: "nat option"
  range_min :: real
  range_max :: real

definition d3_normalize :: "real \<Rightarrow> real \<Rightarrow> real \<Rightarrow> real" where
  "d3_normalize a b x = (if b - a = 0 then 1 / 2 else (x - a) / (b - a))"

definition d3_interpolateNumber :: "real \<Rightarrow> real \<Rightarrow> real \<Rightarrow> real" where
  "d3_interpolateNumber a b t = a * (1 - t) + b * t"

definition scale_apply :: "sqrt_scale \<Rightarrow> nat option \<Rightarrow> real option" where
  "scale_apply sc x =
     (case x of
        None \<Rightarrow> None
      | Some v \<Rightarrow>
          (case domain_max sc of
             None \<Rightarrow> None
           | Some d \<Rightarrow>
               let d0 = sqrt 0; d1 = sqrt (real d); r0 = range_min sc; r1 = range_max sc
               in if d1 < d0
                  then Some (d3_interpolateNumber r1 r0 (d3_normalize d1 d0 (sqrt (real v))))
                  else Some (d3_interpolateNumber r0 r1 (d3_normalize d0 d1 (sqrt (real v))))))"

text \<open>The scale as the load handler creates it from the unfiltered stations.\<close>

definition radiusScale_create :: "'a station_scheme list \<Rightarrow> sqrt_scale" where
  "radiusScale_create stations =
     \<lparr>domain_max = d3_max (map totalTraffic stations), range_min = 0, range_max = 25\<rparr>"

text \<open>
  The load handler after the two fetches: traffic without a filter, then the
  scale. The result is the store, the array \<^verbatim>\<open>stations\<close> and the scale.
\<close>

definition on_load :: "trip_store \<Rightarrow> 'a heap \<Rightarrow> ref list \<Rightarrow> 'a heap \<times> ref list \<times> sqrt_scale" where
  "on_load st h originalStations =
     (case computeStationTraffic st h originalStations (- 1) of
        (h1, stations) \<Rightarrow> (h1, stations, radiusScale_create (map h1 stations)))"

text \<open>
  \<^verbatim>\<open>updateScatterPlot\<close>, without the drawing: the traffic is recomputed on
  \<^verbatim>\<open>originalStations\<close> and the range of the scale is set.
\<close>

definition updateScatterPlot ::
  "trip_store \<Rightarrow> ref list \<Rightarrow> 'a heap \<times> sqrt_scale \<Rightarrow> int \<Rightarrow> ('a heap \<times> sqrt_scale) \<times> ref list" where
  "updateScatterPlot st originalStations s timeFilter =
     (case s of (h, radiusScale) \<Rightarrow>
        (case computeStationTraffic st h originalStations timeFilter of
           (h1, filteredStations) \<Rightarrow>
             ((h1, if timeFilter = - 1
                   then radiusScale\<lparr>range_min := 0, range_max := 25\<rparr>
                   else radiusScale\<lparr>range_min := 3, range_max := 50\<rparr>),
              filteredStations)))"

text \<open>
  The departure ratio handed to the flow scale:
  \<^verbatim>\<open>d.totalTraffic > 0 ? d.departures / d.totalTraffic : 0.5\<close>. A comparison
  with \<^verbatim>\<open>undefined\<close> is false; \<open>None\<close> as a result is NaN.
\<close>

definition departure_ratio :: "'a station_scheme \<Rightarrow> real option" where
  "departure_ratio d =
     (case totalTraffic d of
        None \<Rightarrow> Some (1 / 2)
      | Some t \<Rightarrow>
          if 0 < t then (case departures d of None \<Rightarrow> None | Some n \<Rightarrow> Some (real n / real t))
          else Some (1 / 2))"

subsection \<open>Notions of the specification\<close>

text \<open>The window bounds \<open>lo\<close> and \<open>hi\<close> in the words of the specification.\<close>

definition window_lo :: "int \<Rightarrow> nat" where
  "window_lo f = nat ((f - 60 + 1440) mod 1440)"

definition window_hi :: "int \<Rightarrow> nat" where
  "window_hi f = nat ((f + 60) mod 1440)"

text \<open>
  The derived record of the specification for a station: the number of windowed
  departures whose start station id is the station's id, the number of windowed
  arrivals whose end station id is, and their sum.
\<close>

definition count_by :: "('a \<Rightarrow> string) \<Rightarrow> 'a list \<Rightarrow> string \<Rightarrow> nat" where
  "count_by key xs k = length (filter (\<lambda>x. key x = k) xs)"

definition station_with_traffic :: "trip_store \<Rightarrow> int \<Rightarrow> 'a station_scheme \<Rightarrow> 'a station_scheme" where
  "station_with_traffic st f s =
     s\<lparr>arrivals :=
         Some (count_by end_station_id (filterByMinute (arrivalsByMinute st) f) (short_name s)),
       departures :=
         Some (count_by start_station_id (filterByMinute (departuresByMinute st) f) (short_name s)),
       totalTraffic :=
         Some (count_by start_station_id (filterByMinute (departuresByMinute st) f) (short_name s) +
               count_by end_station_id (filterByMinute (arrivalsByMinute st) f) (short_name s))\<rparr>"

text \<open>
  The sum of \<^verbatim>\<open>totalTraffic\<close> over an array of stations; a station without the
  field counts as 0.
\<close>

definition traffic_total :: "'a heap \<Rightarrow> ref list \<Rightarrow> nat" where
  "traffic_total h stations =
     sum_list (map (\<lambda>r. case totalTraffic (h r) of None \<Rightarrow> 0 | Some n \<Rightarrow> n) stations)"

subsection \<open>Concrete data\<close>

text \<open>
  The \<^verbatim>\<open>Date\<close> constructor on the timestamps of the rows below; every other
  string is taken as unparseable.
\<close>

definition example_newDate :: "string \<Rightarrow> js_date" where
  "example_newDate s =
     (if s = ''00:05'' then LocalTime 300000
      else if s = ''00:10'' then LocalTime 600000
      else if s = ''23:58'' then LocalTime 86280000
      else if s = ''00:02'' then LocalTime 120000
      else InvalidDate)"

definition row_AB :: raw_trip where
  "row_AB = \<lparr>start_station_id = ''A'', end_station_id = ''B'',
             started_at = ''00:05'', ended_at = ''00:10''\<rparr>"

definition row_BA :: raw_trip where
  "row_BA = \<lparr>start_station_id = ''B'', end_station_id = ''A'',
             started_at = ''23:58'', ended_at = ''00:02''\<rparr>"

definition row_bad :: raw_trip where
  "row_bad = \<lparr>start_station_id = ''A'', end_station_id = ''B'',
              started_at = ''not a time'', ended_at = ''00:10''\<rparr>"

definition trip_AB :: trip where
  "trip_AB = parse_dates example_newDate row_AB"

definition trip_BA :: trip where
  "trip_BA = parse_dates example_newDate row_BA"

text \<open>The buckets after the ingestion of the two good rows.\<close>

definition example_store :: trip_store where
  "example_store = fst (d3_csv example_newDate init_store [row_AB, row_BA])"

text \<open>Two freshly loaded stations and a store that holds them at 0 and 1.\<close>

definition station_A :: station where
  "station_A = \<lparr>short_name = ''A'', lon = 0, lat = 0,
                 arrivals = None, departures = None, totalTraffic = None\<rparr>"

definition station_B :: station where
  "station_B = \<lparr>short_name = ''B'', lon = 1, lat = 1,
                 arrivals = None, departures = None, totalTraffic = None\<rparr>"

definition example_heap :: "unit heap" where
  "example_heap r = (if r = 0 then station_A else station_B)"

section \<open>Properties\<close>

subsection \<open>The window query\<close>

lemma js_rem_nonneg: "0 \<le> a \<Longrightarrow> 0 < b \<Longrightarrow> js_rem a b = a mod b"
  by (simp add: js_rem_def)

lemma js_slice_nat: "0 \<le> s \<Longrightarrow> 0 \<le> e \<Longrightarrow> nat s \<le> length xs \<Longrightarrow> nat e \<le> length xs \<Longrightarrow>
  js_slice xs s e = take (nat e - nat s) (drop (nat s) xs)"
  by (simp add: js_slice_def rel_index_def Let_def min_def)

lemma js_slice_from_nat: "0 \<le> s \<Longrightarrow> js_slice_from xs s = drop (nat s) xs"
  by (auto simp add: js_slice_from_def rel_index_def min_def)

lemma slices_nat:
  assumes a: "0 \<le> a" "a < int (length bk)" and b: "0 \<le> b" "b < int (length bk)"
  shows "(if a > b then concat (js_slice_from bk a @ js_slice bk 0 b) else concat (js_slice bk a b)) =
         (if nat a > nat b then concat (drop (nat a) bk) @ concat (take (nat b) bk)
          else concat (take (nat b - nat a) (drop (nat a) bk)))"
proof -
  have s1: "js_slice_from bk a = drop (nat a) bk" using a(1) by (rule js_slice_from_nat)
  have s2: "js_slice bk 0 b = take (nat b) bk"
    using js_slice_nat [of 0 b bk] b by simp
  have s3: "js_slice bk a b = take (nat b - nat a) (drop (nat a) bk)"
    using js_slice_nat [of a b bk] a b by simp
  have cmp: "(a > b) = (nat a > nat b)" using a b by auto
  show ?thesis unfolding s1 s2 s3 cmp by simp
qed

lemma filterByMinute_slices:
  assumes len: "length bk = 1440" and f: "0 \<le> f" "f \<le> 1439"
  shows "filterByMinute bk f =
     (if window_lo f > window_hi f
      then concat (drop (window_lo f) bk) @ concat (take (window_hi f) bk)
      else concat (take (window_hi f - window_lo f) (drop (window_lo f) bk)))"
proof -
  have len': "int (length bk) = 1440" using len by simp
  have lo: "0 \<le> (f - 60 + 1440) mod 1440" "(f - 60 + 1440) mod 1440 < int (length bk)"
    unfolding len' by (rule pos_mod_sign, simp) (rule pos_mod_bound, simp)
  have hi: "0 \<le> (f + 60) mod 1440" "(f + 60) mod 1440 < int (length bk)"
    unfolding len' by (rule pos_mod_sign, simp) (rule pos_mod_bound, simp)
  have "0 \<le> f - 60 + 1440" using f by simp
  then have r1: "js_rem (f - 60 + 1440) 1440 = (f - 60 + 1440) mod 1440"
    by (rule js_rem_nonneg) simp
  have "0 \<le> f + 60" using f by simp
  then have r2: "js_rem (f + 60) 1440 = (f + 60) mod 1440"
    by (rule js_rem_nonneg) simp
  have ne: "f \<noteq> - 1" using f by simp
  have "filterByMinute bk f =
     (if (f - 60 + 1440) mod 1440 > (f + 60) mod 1440
      then concat (js_slice_from bk ((f - 60 + 1440) mod 1440) @ js_slice bk 0 ((f + 60) mod 1440))
      else concat (js_slice bk ((f - 60 + 1440) mod 1440) ((f + 60) mod 1440)))"
    unfolding filterByMinute_def Let_def r1 r2 if_not_P [OF ne] ..
  then show ?thesis
    unfolding slices_nat [OF lo hi] window_lo_def window_hi_def .
qed

lemma window_lo_eq:
  assumes "0 \<le> f" "f \<le> 1439"
  shows "window_lo f = (if f < 60 then nat f + 1380 else nat f - 60)"
proof (cases "f < 60")
  case True
  then have "(f - 60 + 1440) mod 1440 = f + 1380" using assms by (simp add: mod_pos_pos_trivial)
  then show ?thesis using True assms by (simp add: window_lo_def)
next
  case False
  have "(f - 60 + 1440) mod 1440 = (f - 60) mod 1440" by (rule mod_add_self2)
  also have "\<dots> = f - 60" using False assms by (simp add: mod_pos_pos_trivial)
  finally show ?thesis using False assms by (simp add: window_lo_def nat_diff_distrib)
qed

lemma window_hi_eq:
  assumes "0 \<le> f" "f \<le> 1439"
  shows "window_hi f = (if f < 1380 then nat f + 60 else nat f - 1380)"
proof (cases "f < 1380")
  case True
  then have "(f + 60) mod 1440 = f + 60" using assms by (simp add: mod_pos_pos_trivial)
  then show ?thesis using True assms by (simp add: window_hi_def nat_add_distrib)
next
  case False
  have e: "f + 60 = f - 1380 + 1440" by simp
  have "(f + 60) mod 1440 = (f - 1380) mod 1440" unfolding e by (rule mod_add_self2)
  also have "\<dots> = f - 1380" using False assms by (simp add: mod_pos_pos_trivial)
  finally show ?thesis using False assms by (simp add: window_hi_def nat_diff_distrib)
qed



lemma window_hi_after_lo:
  assumes "0 \<le> f" "f \<le> 1439"
  shows "window_hi f = (window_lo f + 120) mod 1440"
proof -
  consider "f < 60" | "60 \<le> f" "f < 1380" | "1380 \<le> f" by linarith
  then show ?thesis
  proof cases
    case 1
    then have "window_lo f + 120 = (nat f + 60) + 1440" using assms by (simp add: window_lo_eq)
    then have "(window_lo f + 120) mod 1440 = (nat f + 60) mod 1440" by (simp only: mod_add_self2)
    then show ?thesis using 1 assms by (simp add: window_hi_eq)
  next
    case 2
    then show ?thesis using assms by (simp add: window_lo_eq window_hi_eq)
  next
    case 3
    then have "window_lo f + 120 = (nat f - 1380) + 1440" using assms by (simp add: window_lo_eq)
    then have "(window_lo f + 120) mod 1440 = (nat f - 1380) mod 1440" by (simp only: mod_add_self2)
    then show ?thesis using 3 assms by (simp add: window_hi_eq)
  qed
qed

lemma slots_range:
  assumes "j \<le> length xs"
  shows "take (j - i) (drop i xs) = map ((!) xs) [i..<j]"
proof (cases "i \<le> j")
  case True
  have "take (j - i) (drop i (map ((!) xs) [0..<length xs])) =
        map ((!) xs) (take (j - i) (drop i [0..<length xs]))"
    by (simp only: drop_map take_map)
  also have "drop i [0..<length xs] = [i..<length xs]" by simp
  also have "take (j - i) [i..<length xs] = [i..<j]" using True assms by simp
  finally show ?thesis by (simp only: map_nth)
next
  case False
  then show ?thesis by simp
qed

lemma cyclic_nowrap:
  assumes "lo + 120 \<le> 1440"
  shows "map ((!) bk) [lo..<lo + 120] = map (\<lambda>k. bk ! ((lo + k) mod 1440)) [0..<120]"
proof -
  have "[lo..<lo + 120] = map (\<lambda>k. lo + k) [0..<120]"
    by (simp only: map_add_upt add.commute [of lo])
  moreover have "\<forall>k \<in> set [0..<120]. (lo + k) mod 1440 = lo + k" using assms by simp
  ultimately show ?thesis by (simp add: o_def)
qed

lemma cyclic_wrap:
  assumes "lo < 1440" "1440 \<le> lo + 120"
  shows "map ((!) bk) [lo..<1440] @ map ((!) bk) [0..<lo + 120 - 1440] =
         map (\<lambda>k. bk ! ((lo + k) mod 1440)) [0..<120]"
proof -
  let ?n = "1440 - lo"
  have "[0..<?n + (120 - ?n)] = [0..<?n] @ [?n..<?n + (120 - ?n)]"
    by (rule upt_add_eq_append) simp
  moreover have "?n + (120 - ?n) = 120" using assms by simp
  ultimately have split: "[0..<120] = [0..<?n] @ [?n..<120]" by simp
  have a: "map (\<lambda>k. bk ! ((lo + k) mod 1440)) [0..<?n] = map ((!) bk) [lo..<1440]"
  proof -
    have "[lo..<1440] = map (\<lambda>k. k + lo) [0..<?n]" using assms by (simp only: map_add_upt) simp
    moreover have "\<forall>k \<in> set [0..<?n]. (lo + k) mod 1440 = k + lo" using assms by simp
    ultimately show ?thesis by (simp add: o_def add.commute)
  qed
  have b: "map (\<lambda>k. bk ! ((lo + k) mod 1440)) [?n..<120] = map ((!) bk) [0..<lo + 120 - 1440]"
  proof -
    have "[?n..<120] = map (\<lambda>k. k + ?n) [0..<lo + 120 - 1440]"
      using assms by (simp only: map_add_upt) simp
    moreover have "\<forall>k \<in> set [0..<lo + 120 - 1440]. (lo + (k + ?n)) mod 1440 = k"
    proof
      fix k assume "k \<in> set [0..<lo + 120 - 1440]"
      then have k: "k < 1440" using assms by simp
      have "lo + (k + ?n) = k + 1440" using assms by simp
      then have "(lo + (k + ?n)) mod 1440 = k mod 1440" by (simp only: mod_add_self2)
      then show "(lo + (k + ?n)) mod 1440 = k" using k by simp
    qed
    ultimately show ?thesis by (simp add: o_def)
  qed
  show ?thesis unfolding split map_append a b ..
qed

lemma filterByMinute_cyclic:
  assumes len: "length bk = 1440" and f: "0 \<le> f" "f \<le> 1439"
  shows "filterByMinute bk f =
         concat (map (\<lambda>k. bk ! ((window_lo f + k) mod 1440)) [0..<120])"
proof -
  note sl = filterByMinute_slices [OF len f]
  consider "f < 60" | "60 \<le> f" "f < 1380" | "1380 \<le> f" by linarith
  then show ?thesis
  proof cases
    case 2
    then have lo: "window_lo f = nat f - 60" and hi: "window_hi f = window_lo f + 120"
      using f by (simp_all add: window_lo_eq window_hi_eq)
    have le: "window_lo f + 120 \<le> 1440" using 2 f lo by simp
    have "\<not> window_hi f < window_lo f" using hi by simp
    then have "filterByMinute bk f = concat (take (window_hi f - window_lo f) (drop (window_lo f) bk))"
      using sl by (simp only: if_False)
    also have "take (window_hi f - window_lo f) (drop (window_lo f) bk) =
               map ((!) bk) [window_lo f..<window_hi f]"
      using le len hi by (intro slots_range) simp
    finally show ?thesis unfolding hi cyclic_nowrap [OF le] .
  next
    case 1
    then have lo: "window_lo f = nat f + 1380" and hi: "window_hi f = window_lo f + 120 - 1440"
      using f by (simp_all add: window_lo_eq window_hi_eq)
    have b: "window_lo f < 1440" "1440 \<le> window_lo f + 120" using 1 f lo by simp_all
    have "window_hi f < window_lo f" using hi b by simp
    then have "filterByMinute bk f =
               concat (drop (window_lo f) bk) @ concat (take (window_hi f) bk)"
      using sl by (simp only: if_True)
    also have "drop (window_lo f) bk = map ((!) bk) [window_lo f..<1440]"
      using slots_range [of 1440 bk "window_lo f"] len b by simp
    also have "take (window_hi f) bk = map ((!) bk) [0..<window_hi f]"
      using slots_range [of "window_hi f" bk 0] len hi b by simp
    finally show ?thesis unfolding hi by (simp only: concat_append [symmetric] cyclic_wrap [OF b])
  next
    case 3
    then have lo: "window_lo f = nat f - 60" and hi: "window_hi f = window_lo f + 120 - 1440"
      using f by (simp_all add: window_lo_eq window_hi_eq)
    have b: "window_lo f < 1440" "1440 \<le> window_lo f + 120" using 3 f lo by simp_all
    have "window_hi f < window_lo f" using hi b by simp
    then have "filterByMinute bk f =
               concat (drop (window_lo f) bk) @ concat (take (window_hi f) bk)"
      using sl by (simp only: if_True)
    also have "drop (window_lo f) bk = map ((!) bk) [window_lo f..<1440]"
      using slots_range [of 1440 bk "window_lo f"] len b by simp
    also have "take (window_hi f) bk = map ((!) bk) [0..<window_hi f]"
      using slots_range [of "window_hi f" bk 0] len hi b by simp
    finally show ?thesis unfolding hi by (simp only: concat_append [symmetric] cyclic_wrap [OF b])
  qed
qed


lemma filterByMinute_slots:
  assumes len: "length bk = 1440" and f: "0 \<le> f" "f \<le> 1439"
  shows "filterByMinute bk f =
         concat (map ((!) bk)
           (if window_hi f < window_lo f then [window_lo f..<1440] @ [0..<window_hi f]
            else [window_lo f..<window_hi f]))"
proof -
  have hi: "window_hi f \<le> length bk" and lo: "window_lo f \<le> length bk"
    using len by (simp_all add: window_hi_def window_lo_def)
  have a: "drop (window_lo f) bk = map ((!) bk) [window_lo f..<1440]"
    using slots_range [of 1440 bk "window_lo f"] len lo by simp
  have b: "take (window_hi f) bk = map ((!) bk) [0..<window_hi f]"
    using slots_range [of "window_hi f" bk 0] hi by simp
  have c: "take (window_hi f - window_lo f) (drop (window_lo f) bk) =
           map ((!) bk) [window_lo f..<window_hi f]"
    using hi by (rule slots_range)
  show ?thesis
  proof (cases "window_hi f < window_lo f")
    case True
    then show ?thesis using filterByMinute_slices [OF len f] a b by simp
  next
    case False
    then show ?thesis using filterByMinute_slices [OF len f] c by simp
  qed
qed

lemma in_slots_iff:
  "t \<in> set (concat (map ((!) bk) [i..<j])) \<longleftrightarrow> (\<exists>m. i \<le> m \<and> m < j \<and> t \<in> set (bk ! m))"
  by auto

text \<open>
  Claim C2. With exactly 1440 slots and a filter \<open>f\<close> from 0 to 1439,
  \<^verbatim>\<open>filterByMinute\<close> returns the concatenation of the 120 cyclically
  consecutive slots that start at \<open>lo = (f - 60 + 1440) mod 1440\<close>; the slot
  \<open>hi = (f + 60) mod 1440\<close> is the first one after them. When \<open>lo > hi\<close> these
  are the slots from \<open>lo\<close> to 1439 followed by the slots below \<open>hi\<close>, otherwise
  the slots from \<open>lo\<close> up to but not including \<open>hi\<close>. For \<open>f = 30\<close> the window
  is 1410 to 1439 and 0 to 89: what is in slot 1430 or in slot 50 is in the
  result, and everything in the result comes from a slot of the window, so a
  trip that is only in slot 200 is not in it.
\<close>

theorem filterByMinute_window:
  assumes len: "length bk = 1440" and f: "0 \<le> f" "f \<le> 1439"
  shows "filterByMinute bk f =
           concat (map (\<lambda>k. bk ! ((window_lo f + k) mod 1440)) [0..<120])
       \<and> (window_lo f + 120) mod 1440 = window_hi f
       \<and> (window_hi f < window_lo f \<longrightarrow>
            filterByMinute bk f =
              concat (map ((!) bk) [window_lo f..<1440]) @ concat (map ((!) bk) [0..<window_hi f]))
       \<and> (window_lo f \<le> window_hi f \<longrightarrow>
            filterByMinute bk f = concat (map ((!) bk) [window_lo f..<window_hi f]))
       \<and> filterByMinute bk 30 =
            concat (map ((!) bk) [1410..<1440]) @ concat (map ((!) bk) [0..<90])
       \<and> set (bk ! 1430) \<subseteq> set (filterByMinute bk 30)
       \<and> set (bk ! 50) \<subseteq> set (filterByMinute bk 30)
       \<and> (\<forall>t \<in> set (filterByMinute bk 30).
            \<exists>m. (1410 \<le> m \<and> m < 1440 \<or> m < 90) \<and> t \<in> set (bk ! m))"
proof -
  have w30: "window_lo 30 = 1410" "window_hi 30 = 90"
    by (simp_all add: window_lo_def window_hi_def)
  have thirty: "filterByMinute bk 30 =
      concat (map ((!) bk) [1410..<1440]) @ concat (map ((!) bk) [0..<90])"
  proof -
    have lt: "(90::nat) < 1410" by simp
    have n: "(0::int) \<le> 30" "(30::int) \<le> 1439" by simp_all
    show ?thesis
      using filterByMinute_slots [OF len n] unfolding w30 if_P [OF lt] map_append concat_append .
  qed
  have p1: "filterByMinute bk f = concat (map (\<lambda>k. bk ! ((window_lo f + k) mod 1440)) [0..<120])"
    using len f by (rule filterByMinute_cyclic)
  have p2: "(window_lo f + 120) mod 1440 = window_hi f"
    using window_hi_after_lo [OF f] by simp
  have p3: "window_hi f < window_lo f \<longrightarrow>
            filterByMinute bk f =
              concat (map ((!) bk) [window_lo f..<1440]) @ concat (map ((!) bk) [0..<window_hi f])"
    using filterByMinute_slots [OF len f] by simp
  have p4: "window_lo f \<le> window_hi f \<longrightarrow>
            filterByMinute bk f = concat (map ((!) bk) [window_lo f..<window_hi f])"
    using filterByMinute_slots [OF len f] by simp
  have mem: "t \<in> set (filterByMinute bk 30) \<longleftrightarrow>
      (\<exists>m. (1410 \<le> m \<and> m < 1440 \<or> m < 90) \<and> t \<in> set (bk ! m))" for t
    unfolding thirty set_append Un_iff in_slots_iff by auto
  have p5: "set (bk ! 1430) \<subseteq> set (filterByMinute bk 30)"
  proof
    fix t assume "t \<in> set (bk ! 1430)"
    then have "(1410 \<le> (1430::nat) \<and> (1430::nat) < 1440 \<or> (1430::nat) < 90) \<and> t \<in> set (bk ! 1430)"
      by simp
    then show "t \<in> set (filterByMinute bk 30)" unfolding mem by (rule exI)
  qed
  have p6: "set (bk ! 50) \<subseteq> set (filterByMinute bk 30)"
  proof
    fix t assume "t \<in> set (bk ! 50)"
    then have "(1410 \<le> (50::nat) \<and> (50::nat) < 1440 \<or> (50::nat) < 90) \<and> t \<in> set (bk ! 50)"
      by simp
    then show "t \<in> set (filterByMinute bk 30)" unfolding mem by (rule exI)
  qed
  have p7: "\<forall>t \<in> set (filterByMinute bk 30).
            \<exists>m. (1410 \<le> m \<and> m < 1440 \<or> m < 90) \<and> t \<in> set (bk ! m)"
    using mem by blast
  show ?thesis using p1 p2 p3 p4 thirty p5 p6 p7 by blast
qed

theorem filterByMinute_window_witness:
  "length (list_update (list_update (list_update (replicate 1440 []) 1430 [trip_AB]) 50 [trip_BA])
             200 [parse_dates example_newDate row_bad]) = 1440
   \<and> (0::int) \<le> 30 \<and> (30::int) \<le> 1439
   \<and> trip_AB \<in> set (filterByMinute
         (list_update (list_update (list_update (replicate 1440 []) 1430 [trip_AB]) 50 [trip_BA])
             200 [parse_dates example_newDate row_bad]) 30)
   \<and> trip_BA \<in> set (filterByMinute
         (list_update (list_update (list_update (replicate 1440 []) 1430 [trip_AB]) 50 [trip_BA])
             200 [parse_dates example_newDate row_bad]) 30)
   \<and> parse_dates example_newDate row_bad \<notin> set (filterByMinute
         (list_update (list_update (list_update (replicate 1440 []) 1430 [trip_AB]) 50 [trip_BA])
             200 [parse_dates example_newDate row_bad]) 30)"
proof -
  let ?bk = "list_update (list_update (list_update (replicate 1440 []) 1430 [trip_AB]) 50 [trip_BA])
             200 [parse_dates example_newDate row_bad]"
  let ?c = "parse_dates example_newDate row_bad"
  have len: "length ?bk = 1440" by simp
  have f: "(0::int) \<le> 30" "(30::int) \<le> 1439" by simp_all
  note w = filterByMinute_window [OF len f]
  have "set (?bk ! 1430) \<subseteq> set (filterByMinute ?bk 30)" using w by (elim conjE)
  moreover have "trip_AB \<in> set (?bk ! 1430)" by simp
  ultimately have a: "trip_AB \<in> set (filterByMinute ?bk 30)" by (rule subsetD)
  have "set (?bk ! 50) \<subseteq> set (filterByMinute ?bk 30)" using w by (elim conjE)
  moreover have "trip_BA \<in> set (?bk ! 50)" by simp
  ultimately have b: "trip_BA \<in> set (filterByMinute ?bk 30)" by (rule subsetD)
  have ne: "?c \<noteq> trip_AB" "?c \<noteq> trip_BA"
    by (simp_all add: trip_AB_def trip_BA_def parse_dates_def row_bad_def row_AB_def row_BA_def
        example_newDate_def)
  have slot: "?c \<notin> set (?bk ! m)" if "1410 \<le> m \<and> m < 1440 \<or> m < 90" for m
    using that ne by (auto simp add: nth_list_update)
  have all: "\<forall>t \<in> set (filterByMinute ?bk 30).
            \<exists>m. (1410 \<le> m \<and> m < 1440 \<or> m < 90) \<and> t \<in> set (?bk ! m)"
    using w by (elim conjE)
  have c: "?c \<notin> set (filterByMinute ?bk 30)"
  proof
    assume "?c \<in> set (filterByMinute ?bk 30)"
    with all obtain m where "1410 \<le> m \<and> m < 1440 \<or> m < 90" "?c \<in> set (?bk ! m)" by blast
    with slot show False by blast
  qed
  show ?thesis using len f a b c by (intro conjI)
qed

subsection \<open>Ingestion\<close>

lemma minutesSinceMidnight_lt: "minutesSinceMidnight d = Some m \<Longrightarrow> m < 1440"
proof (cases d)
  case InvalidDate
  then show "minutesSinceMidnight d = Some m \<Longrightarrow> m < 1440" by (simp add: minutesSinceMidnight_def)
next
  case (LocalTime t)
  assume "minutesSinceMidnight d = Some m"
  then have m: "m = nat ((t div 3600000) mod 24) * 60 + nat ((t div 60000) mod 60)"
    using LocalTime by (simp add: minutesSinceMidnight_def)
  have "nat ((t div 3600000) mod 24) < 24" "nat ((t div 60000) mod 60) < 60" by simp_all
  then show "m < 1440" unfolding m by linarith
qed

lemma count_push:
  "i < length xs \<Longrightarrow>
   length (filter P (concat (list_update xs i (xs ! i @ [t])))) =
   length (filter P (concat xs)) + (if P t then 1 else 0)"
proof (induction xs arbitrary: i)
  case Nil
  then show ?case by simp
next
  case (Cons x xs)
  then show ?case by (cases i) simp_all
qed

lemma row_conversion_Inr:
  assumes "row_conversion nd st row = (st', Inr t)"
  shows "t = parse_dates nd row \<and>
         (\<exists>sm em. minutesSinceMidnight (started_at t) = Some sm \<and> sm < length (departuresByMinute st) \<and>
                  minutesSinceMidnight (ended_at t) = Some em \<and> em < length (arrivalsByMinute st) \<and>
                  st' = \<lparr>departuresByMinute =
                           list_update (departuresByMinute st) sm (departuresByMinute st ! sm @ [t]),
                         arrivalsByMinute =
                           list_update (arrivalsByMinute st) em (arrivalsByMinute st ! em @ [t])\<rparr>)"
  using assms
  by (auto simp add: row_conversion_def Let_def split: option.splits if_splits)

lemma row_conversion_slots:
  assumes "row_conversion nd st row = (st', Inr t)"
  shows "length (departuresByMinute st') = length (departuresByMinute st)"
    and "length (arrivalsByMinute st') = length (arrivalsByMinute st)"
    and "m < length (departuresByMinute st) \<Longrightarrow>
         departuresByMinute st' ! m =
           departuresByMinute st ! m @ filter (\<lambda>t. minutesSinceMidnight (started_at t) = Some m) [t]"
    and "m < length (arrivalsByMinute st) \<Longrightarrow>
         arrivalsByMinute st' ! m =
           arrivalsByMinute st ! m @ filter (\<lambda>t. minutesSinceMidnight (ended_at t) = Some m) [t]"
    and "length (filter P (concat (departuresByMinute st'))) =
         length (filter P (concat (departuresByMinute st))) + length (filter P [t])"
    and "length (filter P (concat (arrivalsByMinute st'))) =
         length (filter P (concat (arrivalsByMinute st))) + length (filter P [t])"
proof -
  from row_conversion_Inr [OF assms] obtain sm em where
    sm: "minutesSinceMidnight (started_at t) = Some sm" "sm < length (departuresByMinute st)" and
    em: "minutesSinceMidnight (ended_at t) = Some em" "em < length (arrivalsByMinute st)" and
    st': "st' = \<lparr>departuresByMinute =
                   list_update (departuresByMinute st) sm (departuresByMinute st ! sm @ [t]),
                 arrivalsByMinute =
                   list_update (arrivalsByMinute st) em (arrivalsByMinute st ! em @ [t])\<rparr>"
    by blast
  show "length (departuresByMinute st') = length (departuresByMinute st)" by (simp add: st')
  show "length (arrivalsByMinute st') = length (arrivalsByMinute st)" by (simp add: st')
  show "departuresByMinute st' ! m =
         departuresByMinute st ! m @ filter (\<lambda>t. minutesSinceMidnight (started_at t) = Some m) [t]"
    if "m < length (departuresByMinute st)"
    using that sm by (auto simp add: st' nth_list_update)
  show "arrivalsByMinute st' ! m =
         arrivalsByMinute st ! m @ filter (\<lambda>t. minutesSinceMidnight (ended_at t) = Some m) [t]"
    if "m < length (arrivalsByMinute st)"
    using that em by (auto simp add: st' nth_list_update)
  show "length (filter P (concat (departuresByMinute st'))) =
         length (filter P (concat (departuresByMinute st))) + length (filter P [t])"
    using count_push [OF sm(2), of P t] by (simp add: st')
  show "length (filter P (concat (arrivalsByMinute st'))) =
         length (filter P (concat (arrivalsByMinute st))) + length (filter P [t])"
    using count_push [OF em(2), of P t] by (simp add: st')
qed

lemma d3_csv_Cons_Inr:
  assumes "d3_csv nd st (row # rows) = (st', Inr trips)"
  obtains st1 t ts where "row_conversion nd st row = (st1, Inr t)"
    and "d3_csv nd st1 rows = (st', Inr ts)" and "trips = t # ts"
  using assms by (auto split: prod.splits sum.splits)

lemma d3_csv_trips:
  "d3_csv nd st rows = (st', Inr trips) \<Longrightarrow> trips = map (parse_dates nd) rows"
proof (induction rows arbitrary: st trips)
  case Nil
  then show ?case by simp
next
  case (Cons row rows)
  from Cons.prems obtain st1 t ts where
    r: "row_conversion nd st row = (st1, Inr t)" and
    c: "d3_csv nd st1 rows = (st', Inr ts)" and t: "trips = t # ts"
    by (rule d3_csv_Cons_Inr)
  from row_conversion_Inr [OF r] have "t = parse_dates nd row" by blast
  with Cons.IH [OF c] t show ?case by simp
qed

lemma row_conversion_length:
  "row_conversion nd st row = (st', r) \<Longrightarrow>
   length (departuresByMinute st') = length (departuresByMinute st) \<and>
   length (arrivalsByMinute st') = length (arrivalsByMinute st)"
  by (auto simp add: row_conversion_def Let_def split: option.splits if_splits)

lemma d3_csv_length:
  "d3_csv nd st rows = (st', r) \<Longrightarrow>
   length (departuresByMinute st') = length (departuresByMinute st) \<and>
   length (arrivalsByMinute st') = length (arrivalsByMinute st)"
proof (induction rows arbitrary: st r)
  case Nil
  then show ?case by simp
next
  case (Cons row rows)
  obtain st1 r1 where r: "row_conversion nd st row = (st1, r1)" by (cases "row_conversion nd st row")
  note l1 = row_conversion_length [OF r]
  show ?case
  proof (cases r1)
    case (Inl e)
    with Cons.prems r have "st' = st1" by simp
    with l1 show ?thesis by simp
  next
    case (Inr t)
    obtain st2 r2 where c: "d3_csv nd st1 rows = (st2, r2)" by (cases "d3_csv nd st1 rows")
    with Cons.prems r Inr have "st' = st2" by (auto split: sum.splits)
    with c have "d3_csv nd st1 rows = (st', r2)" by simp
    from Cons.IH [OF this] l1 show ?thesis by simp
  qed
qed

lemma d3_csv_slots:
  assumes "d3_csv nd st rows = (st', Inr trips)"
  shows "m < length (departuresByMinute st) \<Longrightarrow>
         departuresByMinute st' ! m =
           departuresByMinute st ! m @ filter (\<lambda>t. minutesSinceMidnight (started_at t) = Some m) trips"
    and "m < length (arrivalsByMinute st) \<Longrightarrow>
         arrivalsByMinute st' ! m =
           arrivalsByMinute st ! m @ filter (\<lambda>t. minutesSinceMidnight (ended_at t) = Some m) trips"
  using assms
proof (induction rows arbitrary: st trips)
  case Nil
  { case 1 then show ?case by simp }
  { case 2 then show ?case by simp }
next
  case (Cons row rows)
  {
    case 1
    from 1(2) obtain st1 t ts where
      r: "row_conversion nd st row = (st1, Inr t)" and
      c: "d3_csv nd st1 rows = (st', Inr ts)" and t: "trips = t # ts"
      by (rule d3_csv_Cons_Inr)
    have m1: "m < length (departuresByMinute st1)" using row_conversion_slots(1) [OF r] 1(1) by simp
    show ?case
      using Cons.IH(1) [OF m1 c] row_conversion_slots(3) [OF r 1(1)] t by simp
  }
  {
    case 2
    from 2(2) obtain st1 t ts where
      r: "row_conversion nd st row = (st1, Inr t)" and
      c: "d3_csv nd st1 rows = (st', Inr ts)" and t: "trips = t # ts"
      by (rule d3_csv_Cons_Inr)
    have m1: "m < length (arrivalsByMinute st1)" using row_conversion_slots(2) [OF r] 2(1) by simp
    show ?case
      using Cons.IH(2) [OF m1 c] row_conversion_slots(4) [OF r 2(1)] t by simp
  }
qed

lemma d3_csv_count:
  assumes "d3_csv nd st rows = (st', Inr trips)"
  shows "length (filter P (concat (departuresByMinute st'))) =
         length (filter P (concat (departuresByMinute st))) + length (filter P trips)"
    and "length (filter P (concat (arrivalsByMinute st'))) =
         length (filter P (concat (arrivalsByMinute st))) + length (filter P trips)"
  using assms
proof (induction rows arbitrary: st trips)
  case Nil
  { case 1 then show ?case by simp }
  { case 2 then show ?case by simp }
next
  case (Cons row rows)
  {
    case 1
    from 1 obtain st1 t ts where
      r: "row_conversion nd st row = (st1, Inr t)" and
      c: "d3_csv nd st1 rows = (st', Inr ts)" and t: "trips = t # ts"
      by (rule d3_csv_Cons_Inr)
    show ?case
      using Cons.IH(1) [OF c] row_conversion_slots(5) [OF r, of P] t by simp
  }
  {
    case 2
    from 2 obtain st1 t ts where
      r: "row_conversion nd st row = (st1, Inr t)" and
      c: "d3_csv nd st1 rows = (st', Inr ts)" and t: "trips = t # ts"
      by (rule d3_csv_Cons_Inr)
    show ?case
      using Cons.IH(2) [OF c] row_conversion_slots(6) [OF r, of P] t by simp
  }
qed

lemma d3_csv_valid:
  "d3_csv nd st rows = (st', Inr trips) \<Longrightarrow> t \<in> set trips \<Longrightarrow>
   \<exists>sm em. minutesSinceMidnight (started_at t) = Some sm \<and>
           minutesSinceMidnight (ended_at t) = Some em"
proof (induction rows arbitrary: st trips)
  case Nil
  then show ?case by simp
next
  case (Cons row rows)
  from Cons.prems(1) obtain st1 t1 ts where
    r: "row_conversion nd st row = (st1, Inr t1)" and
    c: "d3_csv nd st1 rows = (st', Inr ts)" and t: "trips = t1 # ts"
    by (rule d3_csv_Cons_Inr)
  from Cons.prems(2) t consider "t = t1" | "t \<in> set ts" by auto
  then show ?case
  proof cases
    case 1
    with row_conversion_Inr [OF r] show ?thesis by blast
  next
    case 2
    with Cons.IH [OF c] show ?thesis .
  qed
qed

lemma concat_replicate_Nil: "concat (replicate n []) = []"
  by (induction n) simp_all


lemma minutesSinceMidnight_SomeD:
  assumes "minutesSinceMidnight d = Some m"
  shows "\<exists>h<24. \<exists>mi<60. getHours d = Some h \<and> getMinutes d = Some mi \<and> m = h * 60 + mi"
proof (cases d)
  case InvalidDate
  with assms show ?thesis by (simp add: minutesSinceMidnight_def)
next
  case (LocalTime t)
  have h: "nat ((t div 3600000) mod 24) < 24" and mi: "nat ((t div 60000) mod 60) < 60"
    by simp_all
  have "m = nat ((t div 3600000) mod 24) * 60 + nat ((t div 60000) mod 60)"
    using assms LocalTime by (simp add: minutesSinceMidnight_def)
  with h mi LocalTime show ?thesis by auto
qed

lemma slot_of_trip:
  assumes slots: "\<forall>m<1440. bk ! m = filter (\<lambda>t. minutesSinceMidnight (tm t) = Some m) trips"
    and t: "t \<in> set trips" and sm: "minutesSinceMidnight (tm t) = Some sm"
  shows "\<exists>h<24. \<exists>mi<60. getHours (tm t) = Some h \<and> getMinutes (tm t) = Some mi \<and>
           t \<in> set (bk ! (h * 60 + mi)) \<and> (\<forall>m<1440. t \<in> set (bk ! m) \<longrightarrow> m = h * 60 + mi)"
proof -
  from minutesSinceMidnight_SomeD [OF sm] obtain h mi where
    h: "h < 24" and mi: "mi < 60" and gh: "getHours (tm t) = Some h"
    and gm: "getMinutes (tm t) = Some mi" and m: "sm = h * 60 + mi"
    by blast
  have lt: "sm < 1440" using sm by (rule minutesSinceMidnight_lt)
  have "t \<in> set (bk ! sm)" using slots lt t sm by simp
  moreover have "\<forall>m<1440. t \<in> set (bk ! m) \<longrightarrow> m = sm" using slots sm by simp
  ultimately show ?thesis using h mi gh gm unfolding m by blast
qed

text \<open>
  Claim C5. When the ingestion of a batch succeeds, every row has become a trip,
  slot \<open>m\<close> of \<^verbatim>\<open>departuresByMinute\<close> holds exactly the trips whose start
  time has \<open>minutesSinceMidnight = m\<close>, in file order, and slot \<open>m\<close> of
  \<^verbatim>\<open>arrivalsByMinute\<close> those whose end time has. Every trip's start time has
  an hour \<open>h\<close> below 24 and a minute \<open>mi\<close> below 60, the trip is in slot
  \<open>h * 60 + mi\<close> of \<^verbatim>\<open>departuresByMinute\<close> and in no other slot, and
  likewise for its end time and \<^verbatim>\<open>arrivalsByMinute\<close>; the sizes of the 1440
  slots of either array add up to the number of trips.
\<close>

theorem bucket_completeness:
  assumes ok: "d3_csv nd init_store rows = (st, Inr trips)"
  shows "length trips = length rows
       \<and> length (departuresByMinute st) = 1440 \<and> length (arrivalsByMinute st) = 1440
       \<and> (\<forall>m<1440. departuresByMinute st ! m =
             filter (\<lambda>t. minutesSinceMidnight (started_at t) = Some m) trips)
       \<and> (\<forall>m<1440. arrivalsByMinute st ! m =
             filter (\<lambda>t. minutesSinceMidnight (ended_at t) = Some m) trips)
       \<and> (\<forall>t\<in>set trips. \<exists>sm<1440. \<exists>em<1440.
             minutesSinceMidnight (started_at t) = Some sm \<and>
             minutesSinceMidnight (ended_at t) = Some em)
       \<and> (\<forall>t\<in>set trips. \<exists>h<24. \<exists>mi<60.
             getHours (started_at t) = Some h \<and> getMinutes (started_at t) = Some mi \<and>
             t \<in> set (departuresByMinute st ! (h * 60 + mi)) \<and>
             (\<forall>m<1440. t \<in> set (departuresByMinute st ! m) \<longrightarrow> m = h * 60 + mi))
       \<and> (\<forall>t\<in>set trips. \<exists>h<24. \<exists>mi<60.
             getHours (ended_at t) = Some h \<and> getMinutes (ended_at t) = Some mi \<and>
             t \<in> set (arrivalsByMinute st ! (h * 60 + mi)) \<and>
             (\<forall>m<1440. t \<in> set (arrivalsByMinute st ! m) \<longrightarrow> m = h * 60 + mi))
       \<and> sum_list (map length (departuresByMinute st)) = length trips
       \<and> sum_list (map length (arrivalsByMinute st)) = length trips"
proof -
  have p1: "length trips = length rows" using d3_csv_trips [OF ok] by simp
  have p2: "length (departuresByMinute st) = 1440" "length (arrivalsByMinute st) = 1440"
    using d3_csv_length [OF ok] by (simp_all add: init_store_def)
  have p3: "\<forall>m<1440. departuresByMinute st ! m =
             filter (\<lambda>t. minutesSinceMidnight (started_at t) = Some m) trips"
  proof (intro allI impI)
    fix m :: nat assume "m < 1440"
    then have m: "m < length (departuresByMinute init_store)" by (simp add: init_store_def)
    show "departuresByMinute st ! m =
          filter (\<lambda>t. minutesSinceMidnight (started_at t) = Some m) trips"
      using d3_csv_slots(1) [OF ok m] \<open>m < 1440\<close> by (simp add: init_store_def)
  qed
  have p4: "\<forall>m<1440. arrivalsByMinute st ! m =
             filter (\<lambda>t. minutesSinceMidnight (ended_at t) = Some m) trips"
  proof (intro allI impI)
    fix m :: nat assume "m < 1440"
    then have m: "m < length (arrivalsByMinute init_store)" by (simp add: init_store_def)
    show "arrivalsByMinute st ! m =
          filter (\<lambda>t. minutesSinceMidnight (ended_at t) = Some m) trips"
      using d3_csv_slots(2) [OF ok m] \<open>m < 1440\<close> by (simp add: init_store_def)
  qed
  have p5: "\<forall>t\<in>set trips. \<exists>sm<1440. \<exists>em<1440.
             minutesSinceMidnight (started_at t) = Some sm \<and>
             minutesSinceMidnight (ended_at t) = Some em"
  proof
    fix t assume "t \<in> set trips"
    from d3_csv_valid [OF ok this] obtain sm em where
      "minutesSinceMidnight (started_at t) = Some sm" "minutesSinceMidnight (ended_at t) = Some em"
      by blast
    then show "\<exists>sm<1440. \<exists>em<1440.
             minutesSinceMidnight (started_at t) = Some sm \<and>
             minutesSinceMidnight (ended_at t) = Some em"
      using minutesSinceMidnight_lt by blast
  qed
  have p8: "\<forall>t\<in>set trips. \<exists>h<24. \<exists>mi<60.
             getHours (started_at t) = Some h \<and> getMinutes (started_at t) = Some mi \<and>
             t \<in> set (departuresByMinute st ! (h * 60 + mi)) \<and>
             (\<forall>m<1440. t \<in> set (departuresByMinute st ! m) \<longrightarrow> m = h * 60 + mi)"
  proof
    fix t assume t: "t \<in> set trips"
    from d3_csv_valid [OF ok t] obtain sm where "minutesSinceMidnight (started_at t) = Some sm"
      by blast
    with p3 t show "\<exists>h<24. \<exists>mi<60.
             getHours (started_at t) = Some h \<and> getMinutes (started_at t) = Some mi \<and>
             t \<in> set (departuresByMinute st ! (h * 60 + mi)) \<and>
             (\<forall>m<1440. t \<in> set (departuresByMinute st ! m) \<longrightarrow> m = h * 60 + mi)"
      by (rule slot_of_trip)
  qed
  have p9: "\<forall>t\<in>set trips. \<exists>h<24. \<exists>mi<60.
             getHours (ended_at t) = Some h \<and> getMinutes (ended_at t) = Some mi \<and>
             t \<in> set (arrivalsByMinute st ! (h * 60 + mi)) \<and>
             (\<forall>m<1440. t \<in> set (arrivalsByMinute st ! m) \<longrightarrow> m = h * 60 + mi)"
  proof
    fix t assume t: "t \<in> set trips"
    from d3_csv_valid [OF ok t] obtain em where "minutesSinceMidnight (ended_at t) = Some em"
      by blast
    with p4 t show "\<exists>h<24. \<exists>mi<60.
             getHours (ended_at t) = Some h \<and> getMinutes (ended_at t) = Some mi \<and>
             t \<in> set (arrivalsByMinute st ! (h * 60 + mi)) \<and>
             (\<forall>m<1440. t \<in> set (arrivalsByMinute st ! m) \<longrightarrow> m = h * 60 + mi)"
      by (rule slot_of_trip)
  qed
  have p6: "sum_list (map length (departuresByMinute st)) = length trips"
    using d3_csv_count(1) [OF ok, of "\<lambda>_. True"]
    by (simp add: init_store_def concat_replicate_Nil length_concat)
  have p7: "sum_list (map length (arrivalsByMinute st)) = length trips"
    using d3_csv_count(2) [OF ok, of "\<lambda>_. True"]
    by (simp add: init_store_def concat_replicate_Nil length_concat)
  show ?thesis using p1 p2 p3 p4 p5 p8 p9 p6 p7 by (intro conjI)
qed

lemma example_ingest:
  "snd (d3_csv example_newDate init_store [row_AB, row_BA]) = Inr [trip_AB, trip_BA]"
  by (simp add: row_conversion_def Let_def init_store_def row_AB_def row_BA_def trip_AB_def
      trip_BA_def parse_dates_def example_newDate_def minutesSinceMidnight_def)

lemma example_times:
  "getHours (started_at trip_AB) = Some 0" "getMinutes (started_at trip_AB) = Some 5"
  "getHours (ended_at trip_AB) = Some 0" "getMinutes (ended_at trip_AB) = Some 10"
  "getHours (started_at trip_BA) = Some 23" "getMinutes (started_at trip_BA) = Some 58"
  "getHours (ended_at trip_BA) = Some 0" "getMinutes (ended_at trip_BA) = Some 2"
  by (simp_all add: trip_AB_def trip_BA_def parse_dates_def row_AB_def row_BA_def
      example_newDate_def)

theorem bucket_completeness_witness:
  "snd (d3_csv example_newDate init_store [row_AB, row_BA]) = Inr [trip_AB, trip_BA]
   \<and> getHours (started_at trip_BA) = Some 23 \<and> getMinutes (started_at trip_BA) = Some 58
   \<and> departuresByMinute (fst (d3_csv example_newDate init_store [row_AB, row_BA])) ! (23 * 60 + 58)
       = [trip_BA]
   \<and> departuresByMinute (fst (d3_csv example_newDate init_store [row_AB, row_BA])) ! (0 * 60 + 5)
       = [trip_AB]
   \<and> departuresByMinute (fst (d3_csv example_newDate init_store [row_AB, row_BA])) ! 0 = []
   \<and> getHours (ended_at trip_AB) = Some 0 \<and> getMinutes (ended_at trip_AB) = Some 10
   \<and> arrivalsByMinute (fst (d3_csv example_newDate init_store [row_AB, row_BA])) ! (0 * 60 + 10)
       = [trip_AB]
   \<and> arrivalsByMinute (fst (d3_csv example_newDate init_store [row_AB, row_BA])) ! (0 * 60 + 2)
       = [trip_BA]
   \<and> sum_list (map length
         (departuresByMinute (fst (d3_csv example_newDate init_store [row_AB, row_BA])))) = 2
   \<and> sum_list (map length
         (arrivalsByMinute (fst (d3_csv example_newDate init_store [row_AB, row_BA])))) = 2"
proof -
  let ?st = "fst (d3_csv example_newDate init_store [row_AB, row_BA])"
  have e: "d3_csv example_newDate init_store [row_AB, row_BA] = (?st, Inr [trip_AB, trip_BA])"
    using example_ingest by (simp add: prod_eq_iff)
  note t = bucket_completeness [OF e]
  have msm: "minutesSinceMidnight (started_at trip_AB) = Some 5"
    "minutesSinceMidnight (started_at trip_BA) = Some 1438"
    "minutesSinceMidnight (ended_at trip_AB) = Some 10"
    "minutesSinceMidnight (ended_at trip_BA) = Some 2"
    by (simp_all add: minutesSinceMidnight_def example_times)
  have d: "\<forall>m<1440. departuresByMinute ?st ! m =
             filter (\<lambda>t. minutesSinceMidnight (started_at t) = Some m) [trip_AB, trip_BA]"
    using t by (elim conjE)
  have a: "\<forall>m<1440. arrivalsByMinute ?st ! m =
             filter (\<lambda>t. minutesSinceMidnight (ended_at t) = Some m) [trip_AB, trip_BA]"
    using t by (elim conjE)
  have d1: "departuresByMinute ?st ! (23 * 60 + 58) = [trip_BA]" using d by (simp add: msm)
  have d2: "departuresByMinute ?st ! (0 * 60 + 5) = [trip_AB]" using d by (simp add: msm)
  have d3: "departuresByMinute ?st ! 0 = []" using d by (simp add: msm)
  have a1: "arrivalsByMinute ?st ! (0 * 60 + 10) = [trip_AB]" using a by (simp add: msm)
  have a2: "arrivalsByMinute ?st ! (0 * 60 + 2) = [trip_BA]" using a by (simp add: msm)
  have s1: "sum_list (map length (departuresByMinute ?st)) = 2" using t by simp
  have s2: "sum_list (map length (arrivalsByMinute ?st)) = 2" using t by simp
  show ?thesis
    using example_ingest example_times(5,6) d1 d2 d3 example_times(3,4) a1 a2 s1 s2
    by (intro conjI)
qed

subsection \<open>Rows that do not parse\<close>










subsection \<open>Grouping and counting\<close>

lemma map_of_group_insert:
  "map_of (group_insert k v g) k' =
     (if k' = k then Some ((case map_of g k of None \<Rightarrow> [] | Some vs \<Rightarrow> vs) @ [v])
      else map_of g k')"
  by (induction g) auto

lemma map_of_group_fold:
  "map_of (foldl (\<lambda>groups v. group_insert (key v) v groups) g xs) k =
     (case map_of g k of
        None \<Rightarrow> if filter (\<lambda>x. key x = k) xs = [] then None
                else Some (filter (\<lambda>x. key x = k) xs)
      | Some vs \<Rightarrow> Some (vs @ filter (\<lambda>x. key x = k) xs))"
proof (induction xs arbitrary: g)
  case Nil
  then show ?case by (simp split: option.splits)
next
  case (Cons x xs)
  show ?case
    unfolding foldl_Cons Cons.IH map_of_group_insert
    by (simp split: option.splits)
qed

lemma map_of_d3_group:
  "map_of (d3_group key xs) k =
     (if filter (\<lambda>x. key x = k) xs = [] then None else Some (filter (\<lambda>x. key x = k) xs))"
  unfolding d3_group_def map_of_group_fold by simp

lemma map_of_d3_rollup:
  "map_of (d3_rollup xs reduce key) k =
     (if filter (\<lambda>x. key x = k) xs = [] then None else Some (reduce (filter (\<lambda>x. key x = k) xs)))"
  unfolding d3_rollup_def map_of_map by (simp add: map_of_d3_group)

lemma get_or_rollup_length:
  "get_or (d3_rollup xs length key) k 0 = count_by key xs k"
  by (simp add: get_or_def map_of_d3_rollup count_by_def)

lemma rollup_absent_iff:
  "map_of (d3_rollup xs reduce key) k = None \<longleftrightarrow> k \<notin> key ` set xs"
  by (auto simp add: map_of_d3_rollup filter_empty_conv)

subsection \<open>The aggregation writes in place\<close>

lemma update_station_eq:
  "update_station am dm h r =
     (h(r := (h r)\<lparr>arrivals := Some (get_or am (short_name (h r)) 0),
                  departures := Some (get_or dm (short_name (h r)) 0),
                  totalTraffic := Some (get_or am (short_name (h r)) 0 +
                                        get_or dm (short_name (h r)) 0)\<rparr>), r)"
  by (simp add: update_station_def Let_def js_add_def)

lemma array_map_in_place:
  assumes cb: "\<And>h r. cb h r = (h(r := u (h r)), r)" and idem: "\<And>s. u (u s) = u s"
  shows "array_map cb h refs = ((\<lambda>r. if r \<in> set refs then u (h r) else h r), refs)"
proof (induction refs arbitrary: h)
  case Nil
  then show ?case by simp
next
  case (Cons x refs)
  have "array_map cb h (x # refs) =
        (case array_map cb (h(x := u (h x))) refs of (h2, ys) \<Rightarrow> (h2, x # ys))"
    unfolding array_map.simps cb [of h x] by simp
  also have "\<dots> = ((\<lambda>r. if r \<in> set (x # refs) then u (h r) else h r), x # refs)"
    unfolding Cons.IH by (simp add: idem fun_eq_iff)
  finally show ?case .
qed

lemma array_map_update_station:
  "array_map (update_station am dm) h refs =
     ((\<lambda>r. if r \<in> set refs
            then (h r)\<lparr>arrivals := Some (get_or am (short_name (h r)) 0),
                       departures := Some (get_or dm (short_name (h r)) 0),
                       totalTraffic := Some (get_or am (short_name (h r)) 0 +
                                             get_or dm (short_name (h r)) 0)\<rparr>
            else h r), refs)"
  by (rule array_map_in_place) (simp_all add: update_station_eq)

lemma computeStationTraffic_eq:
  "computeStationTraffic st h stations f =
     ((\<lambda>r. if r \<in> set stations then station_with_traffic st f (h r) else h r), stations)"
  unfolding computeStationTraffic_def Let_def array_map_update_station get_or_rollup_length
  by (simp add: station_with_traffic_def fun_eq_iff add.commute)

lemma station_with_traffic_again:
  "station_with_traffic st f2 (station_with_traffic st f1 s) = station_with_traffic st f2 s"
  by (simp add: station_with_traffic_def)

lemma station_with_traffic_frame:
  "short_name (station_with_traffic st f s) = short_name s"
  "lon (station_with_traffic st f s) = lon s"
  "lat (station_with_traffic st f s) = lat s"
  "station.more (station_with_traffic st f s) = station.more s"
  by (simp_all add: station_with_traffic_def)

lemma station_with_traffic_fields:
  "arrivals (station_with_traffic st f s) =
     Some (count_by end_station_id (filterByMinute (arrivalsByMinute st) f) (short_name s))"
  "departures (station_with_traffic st f s) =
     Some (count_by start_station_id (filterByMinute (departuresByMinute st) f) (short_name s))"
  "totalTraffic (station_with_traffic st f s) =
     Some (count_by start_station_id (filterByMinute (departuresByMinute st) f) (short_name s) +
           count_by end_station_id (filterByMinute (arrivalsByMinute st) f) (short_name s))"
  by (simp_all add: station_with_traffic_def)

lemma example_store_ok:
  "d3_csv example_newDate init_store [row_AB, row_BA] = (example_store, Inr [trip_AB, trip_BA])"
  using example_ingest by (simp add: example_store_def prod_eq_iff)

lemma example_store_count:
  "length (filter P (concat (departuresByMinute example_store))) = length (filter P [trip_AB, trip_BA])"
  "length (filter P (concat (arrivalsByMinute example_store))) = length (filter P [trip_AB, trip_BA])"
  using d3_csv_count [OF example_store_ok, of P]
  by (simp_all add: init_store_def concat_replicate_Nil)

lemma example_counts:
  "count_by start_station_id (filterByMinute (departuresByMinute example_store) (- 1)) k =
     (if k = ''A'' \<or> k = ''B'' then 1 else 0)"
  "count_by end_station_id (filterByMinute (arrivalsByMinute example_store) (- 1)) k =
     (if k = ''A'' \<or> k = ''B'' then 1 else 0)"
  by (auto simp add: count_by_def filterByMinute_def example_store_count trip_AB_def trip_BA_def
      parse_dates_def row_AB_def row_BA_def)

text \<open>
  Claim C10. The array \<^verbatim>\<open>computeStationTraffic\<close> returns holds the references of
  its input array, element by element; the store changes at these references
  only, and there each of the three traffic fields is set, whatever it held, to
  the value looked up in the rollup maps (0 for a missing key) and to their sum.
\<close>

theorem computeStationTraffic_aliases_input:
  "snd (computeStationTraffic st h stations f) = stations
   \<and> (\<forall>i<length stations. snd (computeStationTraffic st h stations f) ! i = stations ! i)
   \<and> (\<forall>r\<in>set stations.
         fst (computeStationTraffic st h stations f) r =
           (h r)\<lparr>arrivals :=
                    Some (get_or (d3_rollup (filterByMinute (arrivalsByMinute st) f) length
                            end_station_id) (short_name (h r)) 0),
                  departures :=
                    Some (get_or (d3_rollup (filterByMinute (departuresByMinute st) f) length
                            start_station_id) (short_name (h r)) 0),
                  totalTraffic :=
                    Some (get_or (d3_rollup (filterByMinute (arrivalsByMinute st) f) length
                            end_station_id) (short_name (h r)) 0 +
                          get_or (d3_rollup (filterByMinute (departuresByMinute st) f) length
                            start_station_id) (short_name (h r)) 0)\<rparr>)
   \<and> (\<forall>r. r \<notin> set stations \<longrightarrow> fst (computeStationTraffic st h stations f) r = h r)"
  unfolding computeStationTraffic_def Let_def array_map_update_station by simp

theorem computeStationTraffic_aliases_input_witness:
  "snd (computeStationTraffic init_store example_heap [0, 1] 30) = [0, 1]
   \<and> arrivals (fst (computeStationTraffic init_store example_heap [0, 1] 30) 0) =
       Some (get_or (d3_rollup (filterByMinute (arrivalsByMinute init_store) 30) length
                            end_station_id) ''A'' 0)
   \<and> fst (computeStationTraffic init_store example_heap [0, 1] 30) 2 = example_heap 2"
  using computeStationTraffic_aliases_input [of init_store example_heap "[0, 1]" 30]
  by (simp add: example_heap_def station_A_def)

text \<open>
  Claim C4. The output has one record per canonical station, in the order of the
  input; the record of a station is the station with \<open>departures\<close> the number of
  windowed departures that start at its id, \<open>arrivals\<close> the number of windowed
  arrivals that end at its id and \<open>totalTraffic\<close> their sum. An id that is
  missing from a rollup map counts 0 there, and a station that no windowed trip
  starts or ends at has 0 in all three fields.
\<close>

theorem computeStationTraffic_records:
  "length (snd (computeStationTraffic st h stations f)) = length stations
   \<and> map (fst (computeStationTraffic st h stations f)) (snd (computeStationTraffic st h stations f)) =
       map (\<lambda>r. station_with_traffic st f (h r)) stations
   \<and> (\<forall>i<length stations.
         short_name (fst (computeStationTraffic st h stations f)
                      (snd (computeStationTraffic st h stations f) ! i)) =
           short_name (h (stations ! i)) \<and>
         departures (fst (computeStationTraffic st h stations f)
                      (snd (computeStationTraffic st h stations f) ! i)) =
           Some (count_by start_station_id (filterByMinute (departuresByMinute st) f)
                   (short_name (h (stations ! i)))) \<and>
         arrivals (fst (computeStationTraffic st h stations f)
                      (snd (computeStationTraffic st h stations f) ! i)) =
           Some (count_by end_station_id (filterByMinute (arrivalsByMinute st) f)
                   (short_name (h (stations ! i)))) \<and>
         totalTraffic (fst (computeStationTraffic st h stations f)
                      (snd (computeStationTraffic st h stations f) ! i)) =
           Some (count_by start_station_id (filterByMinute (departuresByMinute st) f)
                   (short_name (h (stations ! i))) +
                 count_by end_station_id (filterByMinute (arrivalsByMinute st) f)
                   (short_name (h (stations ! i)))))
   \<and> (\<forall>k. get_or (d3_rollup (filterByMinute (departuresByMinute st) f) length start_station_id) k 0 =
            count_by start_station_id (filterByMinute (departuresByMinute st) f) k \<and>
          get_or (d3_rollup (filterByMinute (arrivalsByMinute st) f) length end_station_id) k 0 =
            count_by end_station_id (filterByMinute (arrivalsByMinute st) f) k)
   \<and> (\<forall>k. map_of (d3_rollup (filterByMinute (departuresByMinute st) f) length start_station_id) k
              = None \<longrightarrow>
            get_or (d3_rollup (filterByMinute (departuresByMinute st) f) length start_station_id) k 0
              = 0)
   \<and> (\<forall>k. map_of (d3_rollup (filterByMinute (arrivalsByMinute st) f) length end_station_id) k
              = None \<longrightarrow>
            get_or (d3_rollup (filterByMinute (arrivalsByMinute st) f) length end_station_id) k 0
              = 0)
   \<and> (\<forall>r\<in>set stations.
         (\<forall>t\<in>set (filterByMinute (departuresByMinute st) f). start_station_id t \<noteq> short_name (h r)) \<and>
         (\<forall>t\<in>set (filterByMinute (arrivalsByMinute st) f). end_station_id t \<noteq> short_name (h r)) \<longrightarrow>
         departures (fst (computeStationTraffic st h stations f) r) = Some 0 \<and>
         arrivals (fst (computeStationTraffic st h stations f) r) = Some 0 \<and>
         totalTraffic (fst (computeStationTraffic st h stations f) r) = Some 0)"
proof -
  have p1: "length (snd (computeStationTraffic st h stations f)) = length stations"
    by (simp add: computeStationTraffic_eq)
  have p2: "map (fst (computeStationTraffic st h stations f))
              (snd (computeStationTraffic st h stations f)) =
            map (\<lambda>r. station_with_traffic st f (h r)) stations"
    by (simp add: computeStationTraffic_eq)
  have p3: "\<forall>i<length stations.
         short_name (fst (computeStationTraffic st h stations f)
                      (snd (computeStationTraffic st h stations f) ! i)) =
           short_name (h (stations ! i)) \<and>
         departures (fst (computeStationTraffic st h stations f)
                      (snd (computeStationTraffic st h stations f) ! i)) =
           Some (count_by start_station_id (filterByMinute (departuresByMinute st) f)
                   (short_name (h (stations ! i)))) \<and>
         arrivals (fst (computeStationTraffic st h stations f)
                      (snd (computeStationTraffic st h stations f) ! i)) =
           Some (count_by end_station_id (filterByMinute (arrivalsByMinute st) f)
                   (short_name (h (stations ! i)))) \<and>
         totalTraffic (fst (computeStationTraffic st h stations f)
                      (snd (computeStationTraffic st h stations f) ! i)) =
           Some (count_by start_station_id (filterByMinute (departuresByMinute st) f)
                   (short_name (h (stations ! i))) +
                 count_by end_station_id (filterByMinute (arrivalsByMinute st) f)
                   (short_name (h (stations ! i))))"
    by (simp add: computeStationTraffic_eq station_with_traffic_frame station_with_traffic_fields)
  have p4: "\<forall>k. get_or (d3_rollup (filterByMinute (departuresByMinute st) f) length start_station_id) k 0 =
            count_by start_station_id (filterByMinute (departuresByMinute st) f) k \<and>
          get_or (d3_rollup (filterByMinute (arrivalsByMinute st) f) length end_station_id) k 0 =
            count_by end_station_id (filterByMinute (arrivalsByMinute st) f) k"
    by (simp add: get_or_rollup_length)
  have p5: "\<forall>k. map_of (d3_rollup (filterByMinute (departuresByMinute st) f) length start_station_id) k
              = None \<longrightarrow>
            get_or (d3_rollup (filterByMinute (departuresByMinute st) f) length start_station_id) k 0
              = 0"
    by (simp add: get_or_def)
  have p5': "\<forall>k. map_of (d3_rollup (filterByMinute (arrivalsByMinute st) f) length end_station_id) k
              = None \<longrightarrow>
            get_or (d3_rollup (filterByMinute (arrivalsByMinute st) f) length end_station_id) k 0
              = 0"
    by (simp add: get_or_def)
  have p6: "\<forall>r\<in>set stations.
         (\<forall>t\<in>set (filterByMinute (departuresByMinute st) f). start_station_id t \<noteq> short_name (h r)) \<and>
         (\<forall>t\<in>set (filterByMinute (arrivalsByMinute st) f). end_station_id t \<noteq> short_name (h r)) \<longrightarrow>
         departures (fst (computeStationTraffic st h stations f) r) = Some 0 \<and>
         arrivals (fst (computeStationTraffic st h stations f) r) = Some 0 \<and>
         totalTraffic (fst (computeStationTraffic st h stations f) r) = Some 0"
    by (simp add: computeStationTraffic_eq station_with_traffic_fields count_by_def
        filter_empty_conv)
  show ?thesis using p1 p2 p3 p4 p5 p5' p6 by (intro conjI)
qed

theorem computeStationTraffic_records_witness:
  "(0::nat) < length [0::nat, 1]
   \<and> departures (fst (computeStationTraffic example_store example_heap [0, 1] (- 1))
         (snd (computeStationTraffic example_store example_heap [0, 1] (- 1)) ! 0)) = Some 1
   \<and> totalTraffic (fst (computeStationTraffic example_store example_heap [0, 1] (- 1))
         (snd (computeStationTraffic example_store example_heap [0, 1] (- 1)) ! 0)) = Some 2
   \<and> map_of (d3_rollup (filterByMinute (departuresByMinute example_store) (- 1)) length
         start_station_id) ''Z'' = None
   \<and> get_or (d3_rollup (filterByMinute (departuresByMinute example_store) (- 1)) length
         start_station_id) ''Z'' 0 = 0"
proof -
  note t = computeStationTraffic_records [of example_store example_heap "[0, 1]" "- 1"]
  have i: "(0::nat) < length [0::nat, 1]" by simp
  have z: "map_of (d3_rollup (filterByMinute (departuresByMinute example_store) (- 1)) length
         start_station_id) ''Z'' = None"
    using example_counts(1) [of "''Z''"] by (simp add: map_of_d3_rollup count_by_def)
  have a: "short_name (example_heap ([0, 1] ! 0)) = ''A''"
    by (simp add: example_heap_def station_A_def)
  from t i have "departures (fst (computeStationTraffic example_store example_heap [0, 1] (- 1))
         (snd (computeStationTraffic example_store example_heap [0, 1] (- 1)) ! 0)) =
       Some (count_by start_station_id (filterByMinute (departuresByMinute example_store) (- 1))
               (short_name (example_heap ([0, 1] ! 0))))"
    by blast
  then have d: "departures (fst (computeStationTraffic example_store example_heap [0, 1] (- 1))
         (snd (computeStationTraffic example_store example_heap [0, 1] (- 1)) ! 0)) = Some 1"
    unfolding a example_counts by simp
  from t i have "totalTraffic (fst (computeStationTraffic example_store example_heap [0, 1] (- 1))
         (snd (computeStationTraffic example_store example_heap [0, 1] (- 1)) ! 0)) =
       Some (count_by start_station_id (filterByMinute (departuresByMinute example_store) (- 1))
               (short_name (example_heap ([0, 1] ! 0))) +
             count_by end_station_id (filterByMinute (arrivalsByMinute example_store) (- 1))
               (short_name (example_heap ([0, 1] ! 0))))"
    by blast
  then have tt: "totalTraffic (fst (computeStationTraffic example_store example_heap [0, 1] (- 1))
         (snd (computeStationTraffic example_store example_heap [0, 1] (- 1)) ! 0)) = Some 2"
    unfolding a example_counts by simp
  from t z have g: "get_or (d3_rollup (filterByMinute (departuresByMinute example_store) (- 1)) length
         start_station_id) ''Z'' 0 = 0"
    by blast
  show ?thesis using i d tt z g by (intro conjI)
qed

text \<open>
  Claim C1, as the code has it. \<^verbatim>\<open>computeStationTraffic\<close> writes the three
  traffic fields on the canonical station objects themselves and changes nothing
  else: the id, the coordinates and every other field of each object stay, and
  so does every object that is not in the list. What it writes is computed from
  the buckets, the filter and the station's id alone, so the values a previous
  call left on the objects do not enter the result.
\<close>

theorem computeStationTraffic_frame:
  "(\<forall>r. short_name (fst (computeStationTraffic st h stations f) r) = short_name (h r) \<and>
        lon (fst (computeStationTraffic st h stations f) r) = lon (h r) \<and>
        lat (fst (computeStationTraffic st h stations f) r) = lat (h r) \<and>
        station.more (fst (computeStationTraffic st h stations f) r) = station.more (h r))
   \<and> (\<forall>r. r \<notin> set stations \<longrightarrow> fst (computeStationTraffic st h stations f) r = h r)
   \<and> (\<forall>r\<in>set stations.
         fst (computeStationTraffic st h stations f) r = station_with_traffic st f (h r))
   \<and> (\<forall>g. (\<forall>r\<in>set stations. short_name (g r) = short_name (h r)) \<longrightarrow>
          (\<forall>r\<in>set stations.
             arrivals (fst (computeStationTraffic st g stations f) r) =
               arrivals (fst (computeStationTraffic st h stations f) r) \<and>
             departures (fst (computeStationTraffic st g stations f) r) =
               departures (fst (computeStationTraffic st h stations f) r) \<and>
             totalTraffic (fst (computeStationTraffic st g stations f) r) =
               totalTraffic (fst (computeStationTraffic st h stations f) r)))"
  by (simp add: computeStationTraffic_eq station_with_traffic_frame station_with_traffic_fields)

theorem computeStationTraffic_frame_witness:
  "(2::nat) \<notin> set [0, 1]
   \<and> fst (computeStationTraffic example_store example_heap [0, 1] 30) 2 = example_heap 2
   \<and> (0::nat) \<in> set [0, 1]
   \<and> fst (computeStationTraffic example_store example_heap [0, 1] 30) 0 =
       station_with_traffic example_store 30 (example_heap 0)
   \<and> short_name (fst (computeStationTraffic example_store example_heap [0, 1] (- 1)) 0) =
       short_name (example_heap 0)
   \<and> short_name (fst (computeStationTraffic example_store example_heap [0, 1] (- 1)) 1) =
       short_name (example_heap 1)
   \<and> arrivals (fst (computeStationTraffic example_store
         (fst (computeStationTraffic example_store example_heap [0, 1] (- 1))) [0, 1] 30) 0) =
       arrivals (fst (computeStationTraffic example_store example_heap [0, 1] 30) 0)"
proof -
  note t = computeStationTraffic_frame [of example_store example_heap "[0, 1]" 30]
  have n: "(2::nat) \<notin> set [0, 1]" and m: "(0::nat) \<in> set [0, 1]" by simp_all
  from t n have a: "fst (computeStationTraffic example_store example_heap [0, 1] 30) 2 = example_heap 2"
    by blast
  from t m have b: "fst (computeStationTraffic example_store example_heap [0, 1] 30) 0 =
       station_with_traffic example_store 30 (example_heap 0)"
    by blast
  have c: "\<forall>r\<in>set [0, 1].
         short_name (fst (computeStationTraffic example_store example_heap [0, 1] (- 1)) r) =
         short_name (example_heap r)"
    using computeStationTraffic_frame [of example_store example_heap "[0, 1]" "- 1"] by blast
  from t c m have d: "arrivals (fst (computeStationTraffic example_store
         (fst (computeStationTraffic example_store example_heap [0, 1] (- 1))) [0, 1] 30) 0) =
       arrivals (fst (computeStationTraffic example_store example_heap [0, 1] 30) 0)"
    by blast
  from c have c0: "short_name (fst (computeStationTraffic example_store example_heap [0, 1] (- 1)) 0) =
       short_name (example_heap 0)"
    and c1: "short_name (fst (computeStationTraffic example_store example_heap [0, 1] (- 1)) 1) =
       short_name (example_heap 1)"
    by simp_all
  show ?thesis using n a m b c0 c1 d by (intro conjI)
qed

text \<open>
  A freshly loaded station has no traffic fields; after a call the object at its
  reference has them, so the canonical object is not what it was.
\<close>

theorem canonical_station_mutated_counterexample:
  "arrivals (example_heap 0) = None
   \<and> arrivals (fst (computeStationTraffic example_store example_heap [0, 1] (- 1)) 0) = Some 1
   \<and> fst (computeStationTraffic example_store example_heap [0, 1] (- 1)) 0 \<noteq> example_heap 0"
proof -
  have a: "arrivals (example_heap 0) = None" by (simp add: example_heap_def station_A_def)
  have b: "arrivals (fst (computeStationTraffic example_store example_heap [0, 1] (- 1)) 0) = Some 1"
    by (simp add: computeStationTraffic_eq station_with_traffic_fields example_counts
        example_heap_def station_A_def)
  from a b have "fst (computeStationTraffic example_store example_heap [0, 1] (- 1)) 0 \<noteq> example_heap 0"
    by auto
  with a b show ?thesis by (intro conjI)
qed

text \<open>
  Claim C3. A call with filter \<open>f1\<close> followed by a call with filter \<open>f2\<close> on
  the same station list leaves the store and returns the array that a single
  call with \<open>f2\<close> does; the same holds for two runs of \<^verbatim>\<open>updateScatterPlot\<close>.
\<close>

theorem computeStationTraffic_no_interference:
  "computeStationTraffic st (fst (computeStationTraffic st h stations f1)) stations f2 =
     computeStationTraffic st h stations f2
   \<and> fst (fst (updateScatterPlot st stations (fst (updateScatterPlot st stations (h, sc) f1)) f2)) =
       fst (computeStationTraffic st h stations f2)
   \<and> snd (updateScatterPlot st stations (fst (updateScatterPlot st stations (h, sc) f1)) f2) =
       snd (computeStationTraffic st h stations f2)"
proof -
  have a: "computeStationTraffic st (fst (computeStationTraffic st h stations f1)) stations f2 =
     computeStationTraffic st h stations f2"
    by (simp add: computeStationTraffic_eq station_with_traffic_again fun_eq_iff)
  have u: "fst (fst (updateScatterPlot st stations (h', sc') f)) =
             fst (computeStationTraffic st h' stations f) \<and>
           snd (updateScatterPlot st stations (h', sc') f) =
             snd (computeStationTraffic st h' stations f)" for h' :: "'a heap" and sc' f
    by (simp add: updateScatterPlot_def split: prod.splits)
  obtain h1 sc1 where s1: "fst (updateScatterPlot st stations (h, sc) f1) = (h1, sc1)"
    by (cases "fst (updateScatterPlot st stations (h, sc) f1)")
  have h1: "h1 = fst (computeStationTraffic st h stations f1)"
    using u [of h sc f1] s1 by simp
  show ?thesis unfolding s1 using u [of h1 sc1 f2] a h1 by simp
qed

subsection \<open>Traffic conservation\<close>

lemma sum_list_indicator:
  "distinct ks \<Longrightarrow> sum_list (map (\<lambda>k. if a = k then (1::nat) else 0) ks) = (if a \<in> set ks then 1 else 0)"
  by (induction ks) auto

lemma count_by_Cons:
  "count_by key (x # xs) k = (if key x = k then 1 else 0) + count_by key xs k"
  by (simp add: count_by_def)

lemma count_by_partition:
  assumes "distinct ks" and "\<forall>x\<in>set xs. key x \<in> set ks"
  shows "sum_list (map (count_by key xs) ks) = length xs"
  using assms(2)
proof (induction xs)
  case Nil
  then show ?case by (simp add: count_by_def)
next
  case (Cons x xs)
  have "sum_list (map (count_by key (x # xs)) ks) =
        sum_list (map (\<lambda>k. if key x = k then (1::nat) else 0) ks) + sum_list (map (count_by key xs) ks)"
    by (induction ks) (simp_all add: count_by_Cons)
  also have "sum_list (map (\<lambda>k. if key x = k then (1::nat) else 0) ks) = 1"
    using Cons.prems assms(1) by (simp add: sum_list_indicator)
  also have "sum_list (map (count_by key xs) ks) = length xs"
    using Cons.IH Cons.prems by simp
  finally show ?case by simp
qed

lemma traffic_total_computeStationTraffic:
  "traffic_total (fst (computeStationTraffic st h stations f)) (snd (computeStationTraffic st h stations f)) =
     sum_list (map (count_by start_station_id (filterByMinute (departuresByMinute st) f))
                 (map (\<lambda>r. short_name (h r)) stations)) +
     sum_list (map (count_by end_station_id (filterByMinute (arrivalsByMinute st) f))
                 (map (\<lambda>r. short_name (h r)) stations))"
  by (simp add: traffic_total_def computeStationTraffic_eq station_with_traffic_fields
      station_with_traffic_frame o_def sum_list_addf cong: map_cong)

text \<open>
  Claim C6, as the code has it. Trips are matched to stations by id, so the sum
  counts a departure or an arrival once for each listed station with that id.
  When the ids of the listed stations are pairwise different and every ingested
  trip starts and ends at a listed id, the unfiltered sum of \<open>totalTraffic\<close> is
  twice the number of trips.
\<close>

theorem traffic_conservation:
  assumes ok: "d3_csv nd init_store rows = (st, Inr trips)"
    and ids: "distinct (map (\<lambda>r. short_name (h r)) stations)"
    and known: "\<forall>t\<in>set trips. start_station_id t \<in> set (map (\<lambda>r. short_name (h r)) stations) \<and>
                               end_station_id t \<in> set (map (\<lambda>r. short_name (h r)) stations)"
  shows "traffic_total (fst (computeStationTraffic st h stations (- 1)))
           (snd (computeStationTraffic st h stations (- 1))) = 2 * length trips"
proof -
  let ?ids = "map (\<lambda>r. short_name (h r)) stations"
  have d: "count_by start_station_id (filterByMinute (departuresByMinute st) (- 1)) k =
           count_by start_station_id trips k" for k
    unfolding filterByMinute_def
    using d3_csv_count(1) [OF ok]
    by (simp add: count_by_def init_store_def concat_replicate_Nil)
  have a: "count_by end_station_id (filterByMinute (arrivalsByMinute st) (- 1)) k =
           count_by end_station_id trips k" for k
    unfolding filterByMinute_def
    using d3_csv_count(2) [OF ok]
    by (simp add: count_by_def init_store_def concat_replicate_Nil)
  have "sum_list (map (count_by start_station_id trips) ?ids) = length trips"
    using ids known by (intro count_by_partition) auto
  moreover have "sum_list (map (count_by end_station_id trips) ?ids) = length trips"
    using ids known by (intro count_by_partition) auto
  ultimately show ?thesis
    unfolding traffic_total_computeStationTraffic
    by (simp add: d a cong: map_cong)
qed

lemma example_heap_ids: "map (\<lambda>r. short_name (example_heap r)) [0, 1] = [''A'', ''B'']"
  by (simp add: example_heap_def station_A_def station_B_def)

theorem traffic_conservation_witness:
  "d3_csv example_newDate init_store [row_AB, row_BA] = (example_store, Inr [trip_AB, trip_BA])
   \<and> distinct (map (\<lambda>r. short_name (example_heap r)) [0, 1])
   \<and> start_station_id trip_AB \<in> set (map (\<lambda>r. short_name (example_heap r)) [0, 1])
   \<and> end_station_id trip_AB \<in> set (map (\<lambda>r. short_name (example_heap r)) [0, 1])
   \<and> start_station_id trip_BA \<in> set (map (\<lambda>r. short_name (example_heap r)) [0, 1])
   \<and> end_station_id trip_BA \<in> set (map (\<lambda>r. short_name (example_heap r)) [0, 1])
   \<and> traffic_total (fst (computeStationTraffic example_store example_heap [0, 1] (- 1)))
         (snd (computeStationTraffic example_store example_heap [0, 1] (- 1))) = 4"
proof -
  have ids: "distinct (map (\<lambda>r. short_name (example_heap r)) [0, 1])"
    unfolding example_heap_ids by simp
  have known: "\<forall>t\<in>set [trip_AB, trip_BA].
         start_station_id t \<in> set (map (\<lambda>r. short_name (example_heap r)) [0, 1]) \<and>
         end_station_id t \<in> set (map (\<lambda>r. short_name (example_heap r)) [0, 1])"
    unfolding example_heap_ids
    by (simp add: trip_AB_def trip_BA_def parse_dates_def row_AB_def row_BA_def)
  have "traffic_total (fst (computeStationTraffic example_store example_heap [0, 1] (- 1)))
         (snd (computeStationTraffic example_store example_heap [0, 1] (- 1))) = 4"
    using traffic_conservation [OF example_store_ok ids known] by simp
  moreover from known have
    "start_station_id trip_AB \<in> set (map (\<lambda>r. short_name (example_heap r)) [0, 1])"
    "end_station_id trip_AB \<in> set (map (\<lambda>r. short_name (example_heap r)) [0, 1])"
    "start_station_id trip_BA \<in> set (map (\<lambda>r. short_name (example_heap r)) [0, 1])"
    "end_station_id trip_BA \<in> set (map (\<lambda>r. short_name (example_heap r)) [0, 1])"
    by simp_all
  ultimately show ?thesis using example_store_ok ids by (intro conjI)
qed

text \<open>
  The same two trips with station B alone in the list: the departure from A and
  the arrival at A match no station, and the sum is 2, not 4.
\<close>

theorem traffic_conservation_counterexample:
  "d3_csv example_newDate init_store [row_AB, row_BA] = (example_store, Inr [trip_AB, trip_BA])
   \<and> traffic_total (fst (computeStationTraffic example_store example_heap [1] (- 1)))
         (snd (computeStationTraffic example_store example_heap [1] (- 1))) = 2
   \<and> traffic_total (fst (computeStationTraffic example_store example_heap [1] (- 1)))
         (snd (computeStationTraffic example_store example_heap [1] (- 1)))
       \<noteq> 2 * length [trip_AB, trip_BA]"
proof -
  have "traffic_total (fst (computeStationTraffic example_store example_heap [1] (- 1)))
         (snd (computeStationTraffic example_store example_heap [1] (- 1))) = 2"
    unfolding traffic_total_computeStationTraffic
    by (simp add: example_counts example_heap_def station_B_def)
  with example_store_ok show ?thesis by simp
qed

subsection \<open>The departure ratio\<close>

lemma departure_ratio_value:
  "departures s = Some n \<Longrightarrow> totalTraffic s = Some t \<Longrightarrow>
   departure_ratio s = Some (if 0 < t then real n / real t else 1 / 2)"
  by (simp add: departure_ratio_def)

lemma departure_ratio_with_traffic:
  "\<exists>q. departure_ratio (station_with_traffic st f s) = Some q \<and> 0 \<le> q \<and> q \<le> 1"
proof -
  let ?d = "count_by start_station_id (filterByMinute (departuresByMinute st) f) (short_name s)"
  let ?a = "count_by end_station_id (filterByMinute (arrivalsByMinute st) f) (short_name s)"
  let ?q = "if 0 < ?d + ?a then real ?d / real (?d + ?a) else 1 / 2"
  have "departure_ratio (station_with_traffic st f s) = Some ?q"
    by (rule departure_ratio_value) (simp_all add: station_with_traffic_fields)
  moreover have "0 \<le> ?q" by simp
  moreover have "?q \<le> 1" by (simp add: divide_le_eq)
  ultimately show ?thesis by blast
qed

text \<open>
  Claim C8. On a station with \<open>departures = d\<close> and \<open>totalTraffic = t\<close> the
  ratio is \<open>d / t\<close> when \<open>t > 0\<close> and one half when \<open>t = 0\<close>, so no division
  by zero takes place. On the stations \<^verbatim>\<open>computeStationTraffic\<close> returns the
  ratio is always a number between 0 and 1, and one half for a station without
  matching trips.
\<close>

theorem departure_ratio_guarded:
  "(0 < t \<longrightarrow>
      departure_ratio (s\<lparr>departures := Some d, totalTraffic := Some t\<rparr>) = Some (real d / real t))
   \<and> departure_ratio (s\<lparr>departures := Some d, totalTraffic := Some 0\<rparr>) = Some (1 / 2)
   \<and> (\<forall>r\<in>set stations.
         \<exists>q. departure_ratio (fst (computeStationTraffic st h stations f) r) = Some q \<and>
             0 \<le> q \<and> q \<le> 1)
   \<and> (\<forall>r\<in>set stations.
         totalTraffic (fst (computeStationTraffic st h stations f) r) = Some 0 \<longrightarrow>
         departure_ratio (fst (computeStationTraffic st h stations f) r) = Some (1 / 2))"
proof -
  have a: "0 < t \<longrightarrow>
      departure_ratio (s\<lparr>departures := Some d, totalTraffic := Some t\<rparr>) = Some (real d / real t)"
    by (simp add: departure_ratio_def)
  have b: "departure_ratio (s\<lparr>departures := Some d, totalTraffic := Some 0\<rparr>) = Some (1 / 2)"
    by (simp add: departure_ratio_def)
  have c: "\<forall>r\<in>set stations.
         \<exists>q. departure_ratio (fst (computeStationTraffic st h stations f) r) = Some q \<and>
             0 \<le> q \<and> q \<le> 1"
    by (simp add: computeStationTraffic_eq departure_ratio_with_traffic)
  have d: "\<forall>r\<in>set stations.
         totalTraffic (fst (computeStationTraffic st h stations f) r) = Some 0 \<longrightarrow>
         departure_ratio (fst (computeStationTraffic st h stations f) r) = Some (1 / 2)"
    by (simp add: departure_ratio_def)
  show ?thesis using a b c d by (intro conjI)
qed

theorem departure_ratio_guarded_witness:
  "(0::nat) < 4
   \<and> departure_ratio (station_A\<lparr>departures := Some 1, totalTraffic := Some 4\<rparr>) = Some (1 / 4)
   \<and> departure_ratio (station_A\<lparr>departures := Some 0, totalTraffic := Some 0\<rparr>) = Some (1 / 2)
   \<and> (0::nat) \<in> set [0, 1]
   \<and> totalTraffic (fst (computeStationTraffic init_store example_heap [0, 1] (- 1)) 0) = Some 0
   \<and> departure_ratio (fst (computeStationTraffic init_store example_heap [0, 1] (- 1)) 0) = Some (1 / 2)"
proof -
  note t = departure_ratio_guarded [where t = 4 and s = station_A and d = 1 and stations = "[0, 1]"
      and st = init_store and h = example_heap and f = "- 1"]
  have p: "(0::nat) < 4" and m: "(0::nat) \<in> set [0, 1]" by simp_all
  from t p have a: "departure_ratio (station_A\<lparr>departures := Some 1, totalTraffic := Some 4\<rparr>) =
      Some (1 / 4)" by simp
  have b: "departure_ratio (station_A\<lparr>departures := Some 0, totalTraffic := Some 0\<rparr>) = Some (1 / 2)"
    using departure_ratio_guarded [where t = 4 and s = station_A and d = 0 and stations = "[0, 1]"
      and st = init_store and h = example_heap and f = "- 1"] by blast
  have z: "totalTraffic (fst (computeStationTraffic init_store example_heap [0, 1] (- 1)) 0) = Some 0"
    by (simp add: computeStationTraffic_eq station_with_traffic_fields count_by_def
        filterByMinute_def init_store_def concat_replicate_Nil)
  from t m z have c: "departure_ratio (fst (computeStationTraffic init_store example_heap [0, 1] (- 1)) 0)
      = Some (1 / 2)" by blast
  show ?thesis using p a b m z c by (intro conjI)
qed

subsection \<open>The radius scale\<close>

lemma d3_max_step:
  "foldl (\<lambda>m v. case v of
                   None \<Rightarrow> m
                 | Some x \<Rightarrow> (case m of None \<Rightarrow> Some x | Some y \<Rightarrow> if y < x then Some x else m))
     (Some (m::nat)) (map Some ns) = Some (fold max ns m)"
proof (induction ns arbitrary: m)
  case Nil
  then show ?case by simp
next
  case (Cons n ns)
  have "max n m = (if m < n then n else m)" by (simp add: max_def)
  then show ?case by (auto simp add: Cons.IH)
qed

lemma d3_max_Some:
  "d3_max (map Some (n # ns)) = Some (Max (set (n # ns)))"
  unfolding d3_max_def Max.set_eq_fold by (simp add: d3_max_step)

lemma scale_apply_formula:
  assumes "domain_max sc = Some dm" "0 < dm"
  shows "scale_apply sc (Some x) =
         Some (range_min sc + sqrt (real x / real dm) * (range_max sc - range_min sc))"
proof -
  have pos: "0 < sqrt (real dm)" using assms(2) by simp
  then have "scale_apply sc (Some x) =
     Some (d3_interpolateNumber (range_min sc) (range_max sc)
             (d3_normalize 0 (sqrt (real dm)) (sqrt (real x))))"
    using assms(1) by (simp add: scale_apply_def Let_def)
  also have "d3_normalize 0 (sqrt (real dm)) (sqrt (real x)) = sqrt (real x / real dm)"
    using pos by (simp add: d3_normalize_def real_sqrt_divide)
  finally show ?thesis by (simp add: d3_interpolateNumber_def algebra_simps)
qed

lemma updateScatterPlot_scale:
  "snd (fst (updateScatterPlot st stations (h, sc) f)) =
     (if f = - 1 then sc\<lparr>range_min := 0, range_max := 25\<rparr>
      else sc\<lparr>range_min := 3, range_max := 50\<rparr>)"
  by (simp add: updateScatterPlot_def split: prod.splits)

lemma updateScatterPlot_domain:
  "domain_max (snd (fst (updateScatterPlot st stations s f))) = domain_max (snd s)"
  by (cases s) (simp add: updateScatterPlot_scale)

lemma updateScatterPlot_domain_fold:
  "domain_max (snd (foldl (\<lambda>s f. fst (updateScatterPlot st stations s f)) s fs)) = domain_max (snd s)"
  by (induction fs arbitrary: s) (simp_all add: updateScatterPlot_domain)

lemma on_load_scale:
  "snd (snd (on_load st h stations)) =
     \<lparr>domain_max = d3_max (map (\<lambda>r. totalTraffic (station_with_traffic st (- 1) (h r))) stations),
      range_min = 0, range_max = 25\<rparr>"
  by (simp add: on_load_def computeStationTraffic_eq radiusScale_create_def o_def cong: map_cong)

lemma on_load_domain_max:
  assumes "stations \<noteq> []"
  shows "domain_max (snd (snd (on_load st h stations))) =
         Some (Max (set (map (\<lambda>r.
             count_by start_station_id (filterByMinute (departuresByMinute st) (- 1)) (short_name (h r)) +
             count_by end_station_id (filterByMinute (arrivalsByMinute st) (- 1)) (short_name (h r)))
           stations)))"
proof -
  let ?total = "\<lambda>r.
             count_by start_station_id (filterByMinute (departuresByMinute st) (- 1)) (short_name (h r)) +
             count_by end_station_id (filterByMinute (arrivalsByMinute st) (- 1)) (short_name (h r))"
  obtain r rs where rs: "stations = r # rs" using assms by (cases stations) auto
  have "map (\<lambda>r. totalTraffic (station_with_traffic st (- 1) (h r))) stations =
        map Some (map ?total stations)"
    by (simp add: station_with_traffic_fields o_def)
  also have "map ?total stations = ?total r # map ?total rs" by (simp add: rs)
  finally have "d3_max (map (\<lambda>r. totalTraffic (station_with_traffic st (- 1) (h r))) stations) =
      Some (Max (set (?total r # map ?total rs)))"
    by (simp only: d3_max_Some)
  then show ?thesis unfolding on_load_scale by (simp add: rs)
qed

lemma scale_apply_collapsed:
  assumes "domain_max sc = Some 0"
  shows "scale_apply sc (Some x) = Some ((range_min sc + range_max sc) / 2)"
  using assms
  by (simp add: scale_apply_def Let_def d3_normalize_def d3_interpolateNumber_def field_simps)

lemma scale_apply_undefined:
  "domain_max sc = None \<Longrightarrow> scale_apply sc (Some x) = None"
  by (simp add: scale_apply_def)

lemma on_load_no_stations:
  "domain_max (snd (snd (on_load st h []))) = None"
  by (simp add: on_load_scale d3_max_def)

lemma on_load_init_store:
  "snd (snd (on_load init_store example_heap [0, 1])) =
     \<lparr>domain_max = Some 0, range_min = 0, range_max = 25\<rparr>"
  by (simp add: on_load_scale station_with_traffic_fields count_by_def filterByMinute_def
      init_store_def concat_replicate_Nil d3_max_def)

text \<open>
  Claim C9, as the code has it. With a positive domain maximum \<open>dm\<close> the scale
  maps a total \<open>x\<close> to \<open>range_min + sqrt (x / dm) * (range_max - range_min)\<close>;
  with the domain maximum 0 it maps every total to the middle of the range, and
  without a domain maximum it gives no number. The load handler sets the domain
  maximum to the largest unfiltered \<open>totalTraffic\<close> of the stations, to nothing
  when there is no station, and the range to 0 and 25;
  \<^verbatim>\<open>updateScatterPlot\<close> never changes the domain, however many filter changes
  it runs for, and it sets the range to 0 and 25 for the filter \<open>-1\<close> and to 3
  and 50 for every filter from 0 to 1439.
\<close>

theorem radiusScale_properties:
  "(domain_max sc = Some dm \<and> 0 < dm \<longrightarrow>
      scale_apply sc (Some x) =
        Some (range_min sc + sqrt (real x / real dm) * (range_max sc - range_min sc)))
   \<and> (domain_max sc = Some 0 \<longrightarrow>
        scale_apply sc (Some x) = Some ((range_min sc + range_max sc) / 2))
   \<and> (domain_max sc = None \<longrightarrow> scale_apply sc (Some x) = None)
   \<and> (stations \<noteq> [] \<longrightarrow>
        domain_max (snd (snd (on_load st h stations))) =
          Some (Max (set (map (\<lambda>r.
             count_by start_station_id (filterByMinute (departuresByMinute st) (- 1)) (short_name (h r)) +
             count_by end_station_id (filterByMinute (arrivalsByMinute st) (- 1)) (short_name (h r)))
           stations))))
   \<and> (stations = [] \<longrightarrow> domain_max (snd (snd (on_load st h stations))) = None)
   \<and> range_min (snd (snd (on_load st h stations))) = 0
   \<and> range_max (snd (snd (on_load st h stations))) = 25
   \<and> domain_max (snd (foldl (\<lambda>s f. fst (updateScatterPlot st stations s f)) (h', sc) fs)) =
       domain_max sc
   \<and> range_min (snd (fst (updateScatterPlot st stations (h', sc) (- 1)))) = 0
   \<and> range_max (snd (fst (updateScatterPlot st stations (h', sc) (- 1)))) = 25
   \<and> (0 \<le> f \<and> f \<le> 1439 \<longrightarrow>
        range_min (snd (fst (updateScatterPlot st stations (h', sc) f))) = 3 \<and>
        range_max (snd (fst (updateScatterPlot st stations (h', sc) f))) = 50)"
proof -
  have a: "domain_max sc = Some dm \<and> 0 < dm \<longrightarrow>
      scale_apply sc (Some x) =
        Some (range_min sc + sqrt (real x / real dm) * (range_max sc - range_min sc))"
    using scale_apply_formula by blast
  have a0: "domain_max sc = Some 0 \<longrightarrow>
        scale_apply sc (Some x) = Some ((range_min sc + range_max sc) / 2)"
    using scale_apply_collapsed by blast
  have an: "domain_max sc = None \<longrightarrow> scale_apply sc (Some x) = None"
    using scale_apply_undefined by blast
  have b: "stations \<noteq> [] \<longrightarrow>
        domain_max (snd (snd (on_load st h stations))) =
          Some (Max (set (map (\<lambda>r.
             count_by start_station_id (filterByMinute (departuresByMinute st) (- 1)) (short_name (h r)) +
             count_by end_station_id (filterByMinute (arrivalsByMinute st) (- 1)) (short_name (h r)))
           stations)))"
    using on_load_domain_max by blast
  have b0: "stations = [] \<longrightarrow> domain_max (snd (snd (on_load st h stations))) = None"
    by (simp add: on_load_no_stations)
  have c: "range_min (snd (snd (on_load st h stations))) = 0"
    "range_max (snd (snd (on_load st h stations))) = 25"
    by (simp_all add: on_load_scale)
  have d: "domain_max (snd (foldl (\<lambda>s f. fst (updateScatterPlot st stations s f)) (h', sc) fs)) =
       domain_max sc"
    by (simp add: updateScatterPlot_domain_fold)
  have e: "range_min (snd (fst (updateScatterPlot st stations (h', sc) (- 1)))) = 0"
    "range_max (snd (fst (updateScatterPlot st stations (h', sc) (- 1)))) = 25"
    by (simp_all add: updateScatterPlot_scale)
  have g: "0 \<le> f \<and> f \<le> 1439 \<longrightarrow>
        range_min (snd (fst (updateScatterPlot st stations (h', sc) f))) = 3 \<and>
        range_max (snd (fst (updateScatterPlot st stations (h', sc) f))) = 50"
    by (auto simp add: updateScatterPlot_scale)
  show ?thesis using a a0 an b b0 c d e g by (intro conjI)
qed

theorem radiusScale_properties_witness:
  "domain_max \<lparr>domain_max = Some 4, range_min = 3, range_max = 50\<rparr> = Some 4 \<and> (0::nat) < 4
   \<and> scale_apply \<lparr>domain_max = Some 4, range_min = 3, range_max = 50\<rparr> (Some 1) =
       Some (3 + sqrt (1 / 4) * (50 - 3))
   \<and> domain_max \<lparr>domain_max = Some 0, range_min = 3, range_max = 50\<rparr> = Some 0
   \<and> scale_apply \<lparr>domain_max = Some 0, range_min = 3, range_max = 50\<rparr> (Some 1) = Some (53 / 2)
   \<and> domain_max \<lparr>domain_max = None, range_min = 3, range_max = 50\<rparr> = None
   \<and> scale_apply \<lparr>domain_max = None, range_min = 3, range_max = 50\<rparr> (Some 1) = None
   \<and> [0::nat, 1] \<noteq> []
   \<and> domain_max (snd (snd (on_load example_store example_heap [0, 1]))) = Some 2
   \<and> domain_max (snd (snd (on_load example_store example_heap []))) = None
   \<and> (0::int) \<le> 30 \<and> (30::int) \<le> 1439
   \<and> range_min (snd (fst (updateScatterPlot example_store [0, 1]
         (example_heap, \<lparr>domain_max = Some 4, range_min = 3, range_max = 50\<rparr>) 30))) = 3
   \<and> range_max (snd (fst (updateScatterPlot example_store [0, 1]
         (example_heap, \<lparr>domain_max = Some 4, range_min = 3, range_max = 50\<rparr>) 30))) = 50"
proof -
  let ?sc = "\<lparr>domain_max = Some 4, range_min = 3, range_max = 50\<rparr>"
  let ?zs = "\<lparr>domain_max = Some 0, range_min = 3, range_max = 50\<rparr>"
  let ?ns = "\<lparr>domain_max = None, range_min = 3, range_max = 50\<rparr>"
  note t = radiusScale_properties [where sc = ?sc and dm = 4 and x = 1 and stations = "[0, 1]"
      and st = example_store and h = example_heap and h' = example_heap and f = 30]
  have h1: "domain_max ?sc = Some 4" and h2: "(0::nat) < 4" and h3: "[0::nat, 1] \<noteq> []"
    and h4: "(0::int) \<le> 30" "(30::int) \<le> 1439" by simp_all
  have z1: "domain_max ?zs = Some 0" and n1: "domain_max ?ns = None" by simp_all
  from t h1 h2 have a: "scale_apply ?sc (Some 1) = Some (3 + sqrt (1 / 4) * (50 - 3))" by simp
  have "scale_apply ?zs (Some 1) = Some ((range_min ?zs + range_max ?zs) / 2)"
    using radiusScale_properties [where sc = ?zs and x = 1] z1 by blast
  then have z2: "scale_apply ?zs (Some 1) = Some (53 / 2)" by simp
  have n2: "scale_apply ?ns (Some 1) = None"
    using radiusScale_properties [where sc = ?ns and x = 1] n1 by blast
  from t h3 have "domain_max (snd (snd (on_load example_store example_heap [0, 1]))) =
      Some (Max (set (map (\<lambda>r.
         count_by start_station_id (filterByMinute (departuresByMinute example_store) (- 1))
           (short_name (example_heap r)) +
         count_by end_station_id (filterByMinute (arrivalsByMinute example_store) (- 1))
           (short_name (example_heap r))) [0, 1])))"
    by blast
  then have b: "domain_max (snd (snd (on_load example_store example_heap [0, 1]))) = Some 2"
    by (simp add: example_counts example_heap_def station_A_def station_B_def)
  have b0: "domain_max (snd (snd (on_load example_store example_heap []))) = None"
    using radiusScale_properties [where stations = "[]" and st = example_store and h = example_heap]
    by blast
  from t h4 have c: "range_min (snd (fst (updateScatterPlot example_store [0, 1]
         (example_heap, ?sc) 30))) = 3"
    "range_max (snd (fst (updateScatterPlot example_store [0, 1] (example_heap, ?sc) 30))) = 50"
    by blast+
  show ?thesis using h1 h2 a z1 z2 n1 n2 h3 b b0 h4 c by (intro conjI)
qed

text \<open>
  Before any trip is ingested the unfiltered total of every station is 0, so the
  load handler sets the domain maximum to 0; the scale then answers the middle
  of its range, 12.5, for the total 0, where the formula of the claim gives no
  such value.
\<close>

theorem radiusScale_zero_domain_counterexample:
  "domain_max (snd (snd (on_load init_store example_heap [0, 1]))) = Some 0
   \<and> range_min (snd (snd (on_load init_store example_heap [0, 1]))) = 0
   \<and> range_max (snd (snd (on_load init_store example_heap [0, 1]))) = 25
   \<and> scale_apply (snd (snd (on_load init_store example_heap [0, 1]))) (Some 0) = Some (25 / 2)
   \<and> scale_apply (snd (snd (on_load init_store example_heap [0, 1]))) (Some 0) \<noteq>
       Some (range_min (snd (snd (on_load init_store example_heap [0, 1]))) +
             sqrt (real 0 / real 0) *
               (range_max (snd (snd (on_load init_store example_heap [0, 1]))) -
                range_min (snd (snd (on_load init_store example_heap [0, 1])))))"
proof -
  have s: "scale_apply \<lparr>domain_max = Some 0, range_min = 0, range_max = 25\<rparr> (Some 0) = Some (25 / 2)"
    using scale_apply_collapsed [of "\<lparr>domain_max = Some 0, range_min = 0, range_max = 25\<rparr>" 0]
    by simp
  show ?thesis unfolding on_load_init_store using s by simp
qed

end
